theory Spec2Isabelle
  imports Complex_Main "HOL-Library.Char_ord" "HOL-Library.List_Lexorder" "HOL-Library.Multiset"
begin

section \<open>Go string helpers used by the generators\<close>

text \<open>
  Go strings are byte sequences; they are modelled as \<^typ>\<open>string\<close>.
  \<open>strings.Split(s, sep)\<close> is only called with a one-byte separator, so the
  separator is a single character here.  The result is never empty: splitting the
  empty string yields one empty part.
\<close>

fun strings_Split :: "string \<Rightarrow> char \<Rightarrow> string list" where
  "strings_Split [] sep = [[]]"
| "strings_Split (c # cs) sep =
     (if c = sep then [] # strings_Split cs sep
      else (case strings_Split cs sep of
              [] \<Rightarrow> [[c]]
            | p # ps \<Rightarrow> (c # p) # ps))"

text \<open>\<open>strings.TrimSuffix(s, suffix)\<close>: removes one trailing occurrence, if present.\<close>

definition strings_TrimSuffix :: "string \<Rightarrow> string \<Rightarrow> string" where
  "strings_TrimSuffix s suf =
     (if length suf \<le> length s \<and> drop (length s - length suf) s = suf
      then take (length s - length suf) s else s)"

text \<open>\<open>strings.TrimPrefix(s, prefix)\<close>.\<close>

definition strings_TrimPrefix :: "string \<Rightarrow> string \<Rightarrow> string" where
  "strings_TrimPrefix s pre =
     (if take (length pre) s = pre then drop (length pre) s else s)"

text \<open>
  Two functions of the Go standard library are parameters of the model:
  \<open>json.Compact\<close> (\<open>None\<close> is its error), and the lower-casing of a string that is
  not pure ASCII, which \<open>strings.ToLower\<close> does rune by rune with the Unicode tables
  (\<open>strings.Map(unicode.ToLower, s)\<close>).
\<close>

record goLibrary =
  jsonCompact :: "string \<Rightarrow> string option"
  unicodeToLower :: "string \<Rightarrow> string"

text \<open>
  \<open>strings.ToLower\<close>: when every byte of the string is below 128 the letters A-Z are
  mapped to a-z and every other byte is kept; any other string is lower-cased by the
  Unicode mapping.
\<close>

definition toLowerChar :: "char \<Rightarrow> char" where
  "toLowerChar c =
     (let n = of_char c :: nat in
      if 65 \<le> n \<and> n \<le> 90 then char_of (n + 32) else c)"

definition isASCII :: "string \<Rightarrow> bool" where
  "isASCII s = list_all (\<lambda>c. (of_char c :: nat) < 128) s"

definition strings_ToLower :: "goLibrary \<Rightarrow> string \<Rightarrow> string" where
  "strings_ToLower lib s = (if isASCII s then map toLowerChar s else unicodeToLower lib s)"

text \<open>\<open>strings.ReplaceAll(s, old, "")\<close> for a one-byte \<open>old\<close>: deletes that byte.\<close>

definition strings_RemoveAll :: "string \<Rightarrow> char \<Rightarrow> string" where
  "strings_RemoveAll s c = filter (\<lambda>x. x \<noteq> c) s"

text \<open>
  A Go map that is built by assignments and whose length or entries are read
  (\<open>map[string]string\<close>, \<open>map[int]string\<close>) is modelled as an association list
  with one entry per key; assignment \<open>m[k] = v\<close> overwrites in place or appends, so \<open>length\<close> is
  Go's \<open>len\<close>.
\<close>

fun map_set :: "'k \<Rightarrow> 'v \<Rightarrow> ('k \<times> 'v) list \<Rightarrow> ('k \<times> 'v) list" where
  "map_set k v [] = [(k, v)]"
| "map_set k v ((k', v') # m) =
     (if k' = k then (k, v) # m else (k', v') # map_set k v m)"


text \<open>\<open>strings.Join(elems, sep)\<close>.\<close>

fun strings_Join :: "string list \<Rightarrow> string \<Rightarrow> string" where
  "strings_Join [] sep = []"
| "strings_Join [x] sep = x"
| "strings_Join (x # y # ys) sep = x @ sep @ strings_Join (y # ys) sep"

section \<open>The request document as gjson reads it\<close>

text \<open>
  The gcloud generator reads the request through the third-party library gjson, which
  works on the JSON text.  A document is modelled by its value tree; an array and an
  object also carry \<open>Raw\<close>, the text of the value as it stands in the document, and a
  number carries the text gjson prints for it.  The members of an object are kept in
  document order, duplicates included.
\<close>

datatype json =
    JNull
  | JBool bool
  | JNumber string
  | JString string
  | JArray string "json list"
  | JObject string "(string \<times> json) list"

text \<open>
  A \<open>gjson.Result\<close> is \<^typ>\<open>json option\<close>: \<open>None\<close> is the result that does not exist.
  \<open>Result.String()\<close> is the string itself for a string, the literal for a number or
  a boolean, the empty string for \<open>null\<close> and for a missing value, and the raw text
  for an array or an object.
\<close>

fun gjson_String :: "json option \<Rightarrow> string" where
  "gjson_String None = []"
| "gjson_String (Some JNull) = []"
| "gjson_String (Some (JBool b)) = (if b then ''true'' else ''false'')"
| "gjson_String (Some (JNumber n)) = n"
| "gjson_String (Some (JString s)) = s"
| "gjson_String (Some (JArray raw xs)) = raw"
| "gjson_String (Some (JObject raw kvs)) = raw"

fun gjson_IsObject :: "json option \<Rightarrow> bool" where
  "gjson_IsObject (Some (JObject raw kvs)) = True"
| "gjson_IsObject r = False"

fun gjson_IsArray :: "json option \<Rightarrow> bool" where
  "gjson_IsArray (Some (JArray raw xs)) = True"
| "gjson_IsArray r = False"

text \<open>
  \<open>gjson.Get(json, path)\<close> for a path of object keys separated by dots: each key
  selects the first member of that name.  (Paths that use gjson's array indices,
  wildcards, modifiers or escapes are outside this model.)
\<close>

fun gjson_GetPath :: "json \<Rightarrow> string list \<Rightarrow> json option" where
  "gjson_GetPath j [] = Some j"
| "gjson_GetPath j (k # ks) =
     (case j of
        JObject raw kvs \<Rightarrow>
          (case map_of kvs k of
             None \<Rightarrow> None
           | Some v \<Rightarrow> gjson_GetPath v ks)
      | _ \<Rightarrow> None)"

definition gjson_Get :: "json \<Rightarrow> string \<Rightarrow> json option" where
  "gjson_Get j path = gjson_GetPath j (strings_Split path CHR ''.'')"

section \<open>Method descriptors (package api)\<close>

text \<open>
  The descriptor types of package \<open>api\<close> are declared outside the files at hand;
  the records hold the fields the generators read.  A \<open>PathSegment\<close> is a literal or
  a variable (the pointer that is \<open>nil\<close> is \<open>None\<close>).  Every binding built by the
  parser has a path template, so the template is not optional.
\<close>

record PathVariable =
  FieldPath :: "string list"
  Segments :: "string list"

record PathSegment =
  Literal :: "string option"
  Variable :: "PathVariable option"

record PathTemplate =
  Segments :: "PathSegment list"

record PathBinding =
  Verb :: string
  PathTemplate :: PathTemplate

record PathInfo =
  Bindings :: "PathBinding list"

record Method =
  PathInfo :: "PathInfo option"
  DefaultHost :: string

text \<open>
  Messages and fields.  A field refers to its message type by the address of the
  message in a table of all messages (\<open>None\<close> is \<open>nil\<close>), so message types may refer
  to each other in cycles.  The chain of enclosing messages that \<open>Parent\<close> leads through
  is finite, since messages nest lexically; it is kept as a value, with the three fields
  that are read from a parent.
\<close>

datatype Typez =
    UNDEFINED_TYPE | DOUBLE_TYPE | FLOAT_TYPE | INT64_TYPE | UINT64_TYPE | INT32_TYPE
  | FIXED64_TYPE | FIXED32_TYPE | BOOL_TYPE | STRING_TYPE | GROUP_TYPE | MESSAGE_TYPE
  | BYTES_TYPE | UINT32_TYPE | ENUM_TYPE | SFIXED32_TYPE | SFIXED64_TYPE | SINT32_TYPE
  | SINT64_TYPE

datatype FieldBehavior =
    FIELD_BEHAVIOR_UNSPECIFIED | FIELD_BEHAVIOR_OPTIONAL | FIELD_BEHAVIOR_REQUIRED
  | FIELD_BEHAVIOR_OUTPUT_ONLY | FIELD_BEHAVIOR_INPUT_ONLY | FIELD_BEHAVIOR_IMMUTABLE

datatype MessageParent =
  MessageParent (ParentName: string) (ParentServicePlaceholder: bool)
    (ParentParent: "MessageParent option")

record Field =
  Name :: string
  JSONName :: string
  Documentation :: string
  Typez :: Typez
  Repeated :: bool
  IsMap :: bool
  Behavior :: "FieldBehavior list"
  MessageType :: "nat option"
  EnumType :: "string list option"
  IsOneOf :: bool
  Group :: "string option"

record Message =
  Name :: string
  ID :: string
  Documentation :: string
  Fields :: "Field list"
  Parent :: "MessageParent option"
  Messages :: "string list"

text \<open>
  \<open>Map\<close> of the source is \<open>IsMap\<close>; \<open>EnumType\<close> holds the names of the enum's
  values; \<open>Group\<close> holds the name of the oneof group; \<open>Messages\<close> holds the names
  of the nested messages.  Following a field's \<open>MessageType\<close> pointer:
\<close>

definition messageAt :: "Message list \<Rightarrow> nat option \<Rightarrow> Message option" where
  "messageAt h p =
     (case p of
        None \<Rightarrow> None
      | Some a \<Rightarrow> if a < length h then Some (h ! a) else None)"

section \<open>Path template matcher\<close>

definition isWildcard :: "string \<Rightarrow> bool" where
  "isWildcard seg = (seg = ''*'' \<or> seg = ''**'')"

text \<open>
  The loop of \<open>matchPath\<close>.  \<open>partIdx\<close> and \<open>segmentIdx\<close> advance together, so
  the loop state is the list of remaining parts, the list of remaining segments,
  \<open>lastLiteral\<close> and the \<open>captured\<close> map.  \<open>None\<close> is the early \<open>return nil\<close>;
  otherwise the loop hands back \<open>captured\<close> and the segments it did not reach.
\<close>

fun matchLoop ::
  "string list \<Rightarrow> string list \<Rightarrow> string \<Rightarrow> (string \<times> string) list
     \<Rightarrow> ((string \<times> string) list \<times> string list) option" where
  "matchLoop (part # parts) (seg # segments) lastLiteral captured =
     (if isWildcard seg then
        matchLoop parts segments lastLiteral
          (if lastLiteral \<noteq> [] then
             map_set (strings_TrimSuffix lastLiteral ''s'') part captured
           else captured)
      else if part = seg then matchLoop parts segments seg captured
      else None)"
| "matchLoop [] segments lastLiteral captured = Some (captured, segments)"
| "matchLoop parts [] lastLiteral captured = Some (captured, [])"

definition matchPath :: "string \<Rightarrow> string list \<Rightarrow> (string \<times> string) list option" where
  "matchPath value segments =
     (case matchLoop (strings_Split value CHR ''/'') segments [] [] of
        None \<Rightarrow> None
      | Some (captured, rest) \<Rightarrow> if rest \<noteq> [] then None else Some captured)"

text \<open>
  The keys under which the wildcard tokens of a pattern tail capture, given the literal
  that precedes the tail.
\<close>

fun captureKeys :: "string list \<Rightarrow> string \<Rightarrow> string list" where
  "captureKeys [] lastLiteral = []"
| "captureKeys (seg # segments) lastLiteral =
     (if isWildcard seg then
        (if lastLiteral \<noteq> [] then [strings_TrimSuffix lastLiteral ''s''] else [])
          @ captureKeys segments lastLiteral
      else captureKeys segments seg)"

text \<open>
  The inner loop of \<open>decomposePathParams\<close> over the segments of one binding.
  \<open>None\<close> is \<open>matchFailed\<close>; otherwise the loop yields \<open>decomposed\<close> and
  \<open>usedFields\<close> (a \<open>map[string]bool\<close> that only ever stores \<open>true\<close>: a set).
\<close>

fun segmentsLoop ::
  "json \<Rightarrow> PathSegment list \<Rightarrow> (string \<times> string) list \<Rightarrow> string set
     \<Rightarrow> ((string \<times> string) list \<times> string set) option" where
  "segmentsLoop data [] decomposed usedFields = Some (decomposed, usedFields)"
| "segmentsLoop data (segment # segments) decomposed usedFields =
     (case Variable segment of
        None \<Rightarrow> segmentsLoop data segments decomposed usedFields
      | Some var \<Rightarrow>
          (case FieldPath var of
             [] \<Rightarrow> segmentsLoop data segments decomposed usedFields
           | fieldPath # _ \<Rightarrow>
               (case gjson_Get data fieldPath of
                  None \<Rightarrow> None
                | Some result \<Rightarrow>
                    (case matchPath (gjson_String (Some result)) (PathVariable.Segments var) of
                       None \<Rightarrow> None
                     | Some values \<Rightarrow>
                         segmentsLoop data segments
                           (fold (\<lambda>(k, v). map_set k v) values decomposed)
                           (insert fieldPath usedFields)))))"


text \<open>What one candidate binding yields on its own.\<close>

definition decomposeBinding ::
  "json \<Rightarrow> PathBinding \<Rightarrow> ((string \<times> string) list \<times> string set) option" where
  "decomposeBinding data binding =
     segmentsLoop data (PathTemplate.Segments (PathTemplate binding)) [] {}"

text \<open>
  The outer loop over the bindings, with \<open>bestDecomposed\<close> and \<open>bestUsedFields\<close>
  as state.  A \<open>nil\<close> map reads like an empty one, so both start empty.
\<close>

fun bindingsLoop ::
  "json \<Rightarrow> PathBinding list \<Rightarrow> (string \<times> string) list \<times> string set
     \<Rightarrow> (string \<times> string) list \<times> string set" where
  "bindingsLoop data [] best = best"
| "bindingsLoop data (binding # bindings) best =
     (case decomposeBinding data binding of
        None \<Rightarrow> bindingsLoop data bindings best
      | Some (decomposed, usedFields) \<Rightarrow>
          if length decomposed > length (fst best)
          then bindingsLoop data bindings (decomposed, usedFields)
          else bindingsLoop data bindings best)"

definition decomposePathParams ::
  "Method option \<Rightarrow> json \<Rightarrow> (string \<times> string) list \<times> string set" where
  "decomposePathParams method data =
     (case method of
        None \<Rightarrow> ([], {})
      | Some m \<Rightarrow>
          (case PathInfo m of
             None \<Rightarrow> ([], {})
           | Some pinfo \<Rightarrow>
               if Bindings pinfo = [] then ([], {})
               else bindingsLoop data (Bindings pinfo) ([], {})))"


definition lt_cand :: "nat \<Rightarrow> ((string \<times> string) list \<times> string set) option \<Rightarrow> bool" where
  "lt_cand n c = (case c of None \<Rightarrow> True | Some (d, u) \<Rightarrow> length d < n)"



text \<open>The inputs of the examples of the specification and of the tests.\<close>

definition parentBinding :: "string list \<Rightarrow> PathBinding" where
  "parentBinding pattern =
     \<lparr>Verb = ''POST'',
      PathTemplate = \<lparr>PathTemplate.Segments =
        [\<lparr>Literal = Some ''projects'', Variable = None\<rparr>,
         \<lparr>Literal = None,
          Variable = Some \<lparr>FieldPath = [''parent''], PathVariable.Segments = pattern\<rparr>\<rparr>]\<rparr>\<rparr>"

definition methodOf :: "PathBinding list \<Rightarrow> Method" where
  "methodOf bindings = \<lparr>PathInfo = Some \<lparr>Bindings = bindings\<rparr>, DefaultHost = []\<rparr>"

definition parentRequest :: "string \<Rightarrow> json" where
  "parentRequest v = JObject [] [(''parent'', JString v)]"

section \<open>The gcloud emitter\<close>

record FlagMapping =
  Flag :: string
  Pos :: "int option"
  FieldPath :: string
  Choices :: "string list"

record gcloudMappingFile =
  Command :: string
  MessageID :: string
  Properties :: "FlagMapping list"

record gcloudFlag =
  Name :: string
  Value :: string
  IsLast :: bool

record gcloudData =
  Command :: string
  PositionalArgs :: "string list"
  Flags :: "gcloudFlag list"

definition normalizeChoice :: "goLibrary \<Rightarrow> string \<Rightarrow> string" where
  "normalizeChoice lib s =
     strings_RemoveAll (strings_RemoveAll (strings_ToLower lib s) CHR ''-'') CHR ''_''"

text \<open>
  One element of an array value: an object with exactly one member stands for that
  member's value, every other element for its own string form.
\<close>

definition flattenItem :: "json \<Rightarrow> string" where
  "flattenItem item =
     (case item of
        JObject raw kvs \<Rightarrow>
          if length kvs = 1 then gjson_String (Some (snd (last kvs))) else raw
      | _ \<Rightarrow> gjson_String (Some item))"

text \<open>\<open>value := result.String()\<close>, replaced by the comma-joined items of an array
  that has any.\<close>

definition arrayValue :: "json option \<Rightarrow> string" where
  "arrayValue result =
     (case result of
        Some (JArray raw xs) \<Rightarrow>
          if length (map flattenItem xs) > 0
          then strings_Join (map flattenItem xs) '','' else raw
      | _ \<Rightarrow> gjson_String result)"

text \<open>
  The walk over the keys of an object value: the first key, in document order, that some
  choice matches stops the walk with the first choice, in declared order, that matches
  it.
\<close>

fun objectChoice ::
  "goLibrary \<Rightarrow> (string \<times> json) list \<Rightarrow> string list \<Rightarrow> string option" where
  "objectChoice lib [] choices = None"
| "objectChoice lib ((key, val) # kvs) choices =
     (case List.find (\<lambda>choice. normalizeChoice lib key = normalizeChoice lib choice)
             choices of
        Some choice \<Rightarrow> Some choice
      | None \<Rightarrow> objectChoice lib kvs choices)"

definition resolveChoice ::
  "goLibrary \<Rightarrow> FlagMapping \<Rightarrow> json option \<Rightarrow> string \<Rightarrow> string" where
  "resolveChoice lib prop result value =
     (if length (Choices prop) > 0 then
        (case result of
           Some (JObject raw kvs) \<Rightarrow>
             (case objectChoice lib kvs (Choices prop) of
                Some choice \<Rightarrow> choice
              | None \<Rightarrow> value)
         | _ \<Rightarrow>
             (case List.find
                     (\<lambda>choice. normalizeChoice lib (gjson_String result)
                                 = normalizeChoice lib choice)
                     (Choices prop) of
                Some choice \<Rightarrow> choice
              | None \<Rightarrow> value))
      else value)"

text \<open>
  An object or array value that is still its raw text is compacted; when
  \<open>json.Compact\<close> returns an error the value stays.
\<close>

definition compactValue ::
  "(string \<Rightarrow> string option) \<Rightarrow> json option \<Rightarrow> string \<Rightarrow> string" where
  "compactValue json_Compact result value =
     (if (gjson_IsObject result \<or> gjson_IsArray result) \<and> value = gjson_String result then
        (case json_Compact (gjson_String result) of
           Some dst \<Rightarrow> dst
         | None \<Rightarrow> value)
      else value)"

text \<open>The value a mapping resolves to: the body of the loop up to the placement.\<close>

definition mappingValue :: "goLibrary \<Rightarrow> json \<Rightarrow> FlagMapping \<Rightarrow> string" where
  "mappingValue lib data prop =
     (let result = gjson_Get data (FlagMapping.FieldPath prop) in
      compactValue (jsonCompact lib) result
        (resolveChoice lib prop result (arrayValue result)))"

text \<open>One round of the loop over \<open>mapping.Properties\<close>; the state is \<open>posMap\<close> and
  \<open>flags\<close>.\<close>

definition applyMapping ::
  "goLibrary \<Rightarrow> json \<Rightarrow> string set \<Rightarrow> FlagMapping
     \<Rightarrow> (int \<times> string) list \<times> gcloudFlag list \<Rightarrow> (int \<times> string) list \<times> gcloudFlag list" where
  "applyMapping lib data usedFields prop st =
     (if FlagMapping.FieldPath prop \<in> usedFields then st
      else
        (case Pos prop of
           Some pos \<Rightarrow> (map_set pos (mappingValue lib data prop) (fst st), snd st)
         | None \<Rightarrow>
             if Flag prop \<noteq> [] then
               (if mappingValue lib data prop = []
                   \<or> mappingValue lib data prop = ''null'' then st
                else (fst st,
                      snd st @ [\<lparr>Name = Flag prop,
                                 Value = mappingValue lib data prop,
                                 IsLast = False\<rparr>]))
             else st))"

text \<open>
  One round of the loop over the decomposed path parameters: a non-empty value becomes
  the flag \<open>--key\<close> unless a flag of that name exists.
\<close>

definition injectParam :: "string \<times> string \<Rightarrow> gcloudFlag list \<Rightarrow> gcloudFlag list" where
  "injectParam kv flags =
     (if snd kv = [] then flags
      else if list_ex (\<lambda>f. Name f = ''--'' @ fst kv) flags then flags
      else flags @ [\<lparr>Name = ''--'' @ fst kv, Value = snd kv, IsLast = False\<rparr>])"

definition markLast :: "gcloudFlag list \<Rightarrow> gcloudFlag list" where
  "markLast flags =
     (if length flags > 0 then butlast flags @ [(last flags)\<lparr>IsLast := True\<rparr>] else flags)"

text \<open>
  The data handed to the template.  The positions are the keys of \<open>posMap\<close> in
  ascending order (the keys are distinct); the flags are sorted by name (\<open>sort.Slice\<close>
  promises no order among flags of one name; the stable sort fixes one).
\<close>

definition buildGcloudData ::
  "goLibrary \<Rightarrow> Method option \<Rightarrow> gcloudMappingFile \<Rightarrow> json \<Rightarrow> gcloudData" where
  "buildGcloudData lib method mapping data =
     (let (decomposed, usedFields) = decomposePathParams method data;
          (posMap, flags) =
             fold (applyMapping lib data usedFields) (Properties mapping) ([], []);
          flags2 = fold injectParam decomposed flags
      in \<lparr>Command = gcloudMappingFile.Command mapping,
          PositionalArgs = map snd (sort_key fst posMap),
          Flags = markLast (sort_key Name flags2)\<rparr>)"

text \<open>
  The steps of \<open>GenerateGcloud\<close> that can return an error all touch the outside: reading
  and decoding the mapping file, rendering the template, creating the directory and
  writing the script.  Their outcomes are the environment.
\<close>

datatype gcloudError =
    ReadMappingFailed
  | UnmarshalMappingFailed
  | RenderFailed
  | MkdirFailed
  | WriteFailed

record gcloudEnv =
  readMappingFile :: "string option"
  unmarshalMapping :: "string \<Rightarrow> gcloudMappingFile option"
  library :: goLibrary
  mustacheRender :: "gcloudData \<Rightarrow> string option"
  mkdirAll :: bool
  writeFile :: "string \<Rightarrow> bool"

text \<open>\<open>Inl\<close> is the error returned; \<open>Inr\<close> is \<open>nil\<close>, with the script written.\<close>

definition GenerateGcloud ::
  "gcloudEnv \<Rightarrow> Method option \<Rightarrow> json \<Rightarrow> gcloudError + string" where
  "GenerateGcloud env method data =
     (case readMappingFile env of
        None \<Rightarrow> Inl ReadMappingFailed
      | Some mappingBytes \<Rightarrow>
          (case unmarshalMapping env mappingBytes of
             None \<Rightarrow> Inl UnmarshalMappingFailed
           | Some mapping \<Rightarrow>
               (case mustacheRender env (buildGcloudData (library env) method mapping data) of
                  None \<Rightarrow> Inl RenderFailed
                | Some s \<Rightarrow>
                    if \<not> mkdirAll env then Inl MkdirFailed
                    else if \<not> writeFile env s then Inl WriteFailed
                    else Inr s)))"


text \<open>The request and the mappings of the test \<open>TestGenerateGcloud_SkipEmpty\<close>.\<close>

definition namedFlag :: "string \<Rightarrow> string \<Rightarrow> string list \<Rightarrow> FlagMapping" where
  "namedFlag flag path choices =
     \<lparr>Flag = flag, Pos = None, FieldPath = path, Choices = choices\<rparr>"

definition skipEmptyRequest :: json where
  "skipEmptyRequest =
     JObject [] [(''present'', JString ''here''), (''empty'', JString []), (''null_val'', JNull)]"

definition skipEmptyMapping :: gcloudMappingFile where
  "skipEmptyMapping =
     \<lparr>gcloudMappingFile.Command = ''gcloud test'', MessageID = ''TestMsg'',
      Properties = [namedFlag ''--present'' ''present'' [],
                    namedFlag ''--empty'' ''empty'' [],
                    namedFlag ''--null'' ''null_val'' []]\<rparr>"

text \<open>
  A library whose \<open>json.Compact\<close> returns its input (right for text without
  insignificant white space) and which is only used on ASCII text, and an environment in
  which every outside step succeeds.
\<close>

definition stdLibrary :: goLibrary where
  "stdLibrary = \<lparr>jsonCompact = Some, unicodeToLower = (\<lambda>s. s)\<rparr>"

definition okEnv :: "gcloudMappingFile \<Rightarrow> gcloudEnv" where
  "okEnv mapping =
     \<lparr>readMappingFile = Some [], unmarshalMapping = (\<lambda>bytes. Some mapping),
      library = stdLibrary, mustacheRender = (\<lambda>d. Some (gcloudData.Command d)),
      mkdirAll = True, writeFile = (\<lambda>s. True)\<rparr>"

section \<open>The Go-literal emitter\<close>

text \<open>
  The request as \<open>encoding/json\<close> decodes it into \<open>map[string]any\<close>: numbers are
  \<open>float64\<close> values (every one of them a real number), arrays are slices and objects
  are maps, kept as association lists with one entry per key.
\<close>

datatype any =
    AnyNil
  | AnyBool bool
  | AnyFloat64 real
  | AnyString string
  | AnySlice "any list"
  | AnyMap "(string \<times> any) list"

text \<open>
  What the model leaves to the Go runtime and to package \<open>fmt\<close>: the order in which a
  \<open>range\<close> statement visits the entries of a map (some rearrangement of them), the verb
  \<open>%v\<close> on a decoded value, the verb \<open>%q\<close> on anything but a string of ASCII
  bytes, and the result of converting a floating-point number that the integer type
  cannot represent, which the language leaves to the implementation.
\<close>

record goRuntime =
  mapOrder :: "(string \<times> any) list \<Rightarrow> (string \<times> any) list"
  sprintfV :: "any \<Rightarrow> string"
  sprintfQ :: "any \<Rightarrow> string"
  outOfRangeInt64 :: "real \<Rightarrow> int"
  outOfRangeUint64 :: "real \<Rightarrow> int"

datatype FieldNode =
  FieldNode (NodeName: string) (TypeName: string) (NodeValue: "string option")
    (IsMessage: bool) (IsRepeated: bool) (IsMapNode: bool) (IsPrimitive: bool)
    (Children: "FieldNode list") (Items: "FieldNode list")
    (Entries: "(string \<times> FieldNode) list")

text \<open>\<open>&FieldNode{}\<close>, and the updates of single fields.\<close>

definition zeroNode :: FieldNode where
  "zeroNode = FieldNode [] [] None False False False False [] [] []"

definition setTypeName :: "string \<Rightarrow> FieldNode \<Rightarrow> FieldNode" where
  "setTypeName t n =
     FieldNode (NodeName n) t (NodeValue n) (IsMessage n) (IsRepeated n) (IsMapNode n)
       (IsPrimitive n) (Children n) (Items n) (Entries n)"

definition primitiveNode :: "string \<Rightarrow> string \<Rightarrow> FieldNode" where
  "primitiveNode name v = FieldNode name [] (Some v) False False False True [] [] []"

subsection \<open>Formatting of scalars\<close>

definition digitChar :: "nat \<Rightarrow> char" where
  "digitChar d = ''0123456789'' ! d"

fun natDigits :: "nat \<Rightarrow> string" where
  "natDigits n = (if n < 10 then [digitChar n] else natDigits (n div 10) @ [digitChar (n mod 10)])"

declare natDigits.simps [simp del]

text \<open>\<open>fmt.Sprintf("%d", i)\<close>.\<close>

definition sprintfD :: "int \<Rightarrow> string" where
  "sprintfD i = (if i < 0 then CHR ''-'' # natDigits (nat (- i)) else natDigits (nat i))"

text \<open>A conversion of a \<open>float64\<close> to an integer type drops the fraction.\<close>

definition truncateReal :: "real \<Rightarrow> int" where
  "truncateReal v = (if 0 \<le> v then \<lfloor>v\<rfloor> else \<lceil>v\<rceil>)"

definition int64OfFloat64 :: "goRuntime \<Rightarrow> real \<Rightarrow> int" where
  "int64OfFloat64 rt v =
     (if - (2 ^ 63) \<le> truncateReal v \<and> truncateReal v < 2 ^ 63 then truncateReal v
      else outOfRangeInt64 rt v)"

definition uint64OfFloat64 :: "goRuntime \<Rightarrow> real \<Rightarrow> int" where
  "uint64OfFloat64 rt v =
     (if 0 \<le> truncateReal v \<and> truncateReal v < 2 ^ 64 then truncateReal v
      else outOfRangeUint64 rt v)"

text \<open>
  \<open>strconv.Quote\<close>, which \<open>%q\<close> applies to a string, on ASCII text: the quote and
  the backslash are escaped, control characters are written as escapes, printable
  characters are copied.  Text with a byte from 128 on is quoted by the runtime
  (\<open>sprintfQ\<close>), which knows the printable Unicode characters.
\<close>

definition hexChar :: "nat \<Rightarrow> char" where
  "hexChar d = ''0123456789abcdef'' ! d"

definition quoteChar :: "char \<Rightarrow> string" where
  "quoteChar c =
     (let n = of_char c :: nat in
      if n = 34 then [CHR 0x5C, CHR 0x22]
      else if n = 92 then [CHR 0x5C, CHR 0x5C]
      else if n = 7 then [CHR 0x5C, CHR ''a'']
      else if n = 8 then [CHR 0x5C, CHR ''b'']
      else if n = 12 then [CHR 0x5C, CHR ''f'']
      else if n = 10 then [CHR 0x5C, CHR ''n'']
      else if n = 13 then [CHR 0x5C, CHR ''r'']
      else if n = 9 then [CHR 0x5C, CHR ''t'']
      else if n = 11 then [CHR 0x5C, CHR ''v'']
      else if n < 32 \<or> n = 127 then [CHR 0x5C, CHR ''x'', hexChar (n div 16), hexChar (n mod 16)]
      else [c])"

definition strconv_Quote :: "string \<Rightarrow> string" where
  "strconv_Quote s = CHR 0x22 # concat (map quoteChar s) @ [CHR 0x22]"

definition quoteString :: "goRuntime \<Rightarrow> string \<Rightarrow> string" where
  "quoteString rt s = (if isASCII s then strconv_Quote s else sprintfQ rt (AnyString s))"

definition formatQ :: "goRuntime \<Rightarrow> any \<Rightarrow> string" where
  "formatQ rt val = (case val of AnyString s \<Rightarrow> quoteString rt s | _ \<Rightarrow> sprintfQ rt val)"

definition formatPrimitive :: "goRuntime \<Rightarrow> any \<Rightarrow> string \<Rightarrow> string" where
  "formatPrimitive rt val typeName =
     (if typeName = ''string'' then formatQ rt val
      else if typeName = ''int32'' \<or> typeName = ''int64'' then
        (case val of
           AnyFloat64 v \<Rightarrow> sprintfD (int64OfFloat64 rt v)
         | _ \<Rightarrow> sprintfV rt val)
      else if typeName = ''uint32'' \<or> typeName = ''uint64'' then
        (case val of
           AnyFloat64 v \<Rightarrow> sprintfD (uint64OfFloat64 rt v)
         | _ \<Rightarrow> sprintfV rt val)
      else if typeName = ''bool'' then sprintfV rt val
      else sprintfV rt val)"

subsection \<open>Type names\<close>

text \<open>
  \<open>strings.ToUpper(p[:1])\<close>, on the string of one byte: a lower-case ASCII letter
  becomes the capital, any other ASCII byte stays, and a byte from 128 on, which alone is
  not valid UTF-8, is replaced by the encoding of U+FFFD as \<open>strings.Map\<close> does.
\<close>

definition toUpperByte :: "char \<Rightarrow> string" where
  "toUpperByte c =
     (let n = of_char c :: nat in
      if 97 \<le> n \<and> n \<le> 122 then [char_of (n - 32)]
      else if n < 128 then [c]
      else [CHR 0xEF, CHR 0xBF, CHR 0xBD])"

definition capitalize :: "string \<Rightarrow> string" where
  "capitalize p = (case p of [] \<Rightarrow> [] | c # cs \<Rightarrow> toUpperByte c @ cs)"

definition toPascalCase :: "string \<Rightarrow> string" where
  "toPascalCase s = concat (map capitalize (strings_Split s CHR ''_''))"

fun parentLoop :: "MessageParent option \<Rightarrow> string \<Rightarrow> string" where
  "parentLoop None typeName = typeName"
| "parentLoop (Some (MessageParent name servicePlaceholder grandparent)) typeName =
     (if grandparent = None \<and> servicePlaceholder then typeName
      else parentLoop grandparent (name @ ''_'' @ typeName))"

definition getGoTypeName :: "Message \<Rightarrow> string \<Rightarrow> string" where
  "getGoTypeName msg protoPkgName =
     protoPkgName @ ''.'' @ parentLoop (Parent msg) (Message.Name msg)"

text \<open>The package name at the end of the import path, after a semicolon if there is one.\<close>

definition protoPkgNameOf :: "string \<Rightarrow> string" where
  "protoPkgNameOf protoPkg =
     (let protoPkgName = last (strings_Split protoPkg CHR ''/'') in
      if CHR '';'' \<in> set protoPkgName
      then strings_Split protoPkgName CHR '';'' ! 1
      else protoPkgName)"

text \<open>The two switches over \<open>field.Typez\<close> that name a scalar type.\<close>

definition elemTypeOf :: "Message list \<Rightarrow> Field \<Rightarrow> string \<Rightarrow> string" where
  "elemTypeOf h field protoPkgName =
     (let t = Typez field in
      if t = STRING_TYPE then ''string''
      else if t = INT32_TYPE \<or> t = SINT32_TYPE \<or> t = SFIXED32_TYPE then ''int32''
      else if t = INT64_TYPE \<or> t = SINT64_TYPE \<or> t = SFIXED64_TYPE then ''int64''
      else if t = UINT32_TYPE \<or> t = FIXED32_TYPE then ''uint32''
      else if t = UINT64_TYPE \<or> t = FIXED64_TYPE then ''uint64''
      else if t = BOOL_TYPE then ''bool''
      else if t = MESSAGE_TYPE then
        (case messageAt h (MessageType field) of
           None \<Rightarrow> []
         | Some mt \<Rightarrow> ''*'' @ getGoTypeName mt protoPkgName)
      else [])"

definition scalarTypeStr :: "Typez \<Rightarrow> string" where
  "scalarTypeStr t =
     (if t = INT32_TYPE \<or> t = SINT32_TYPE \<or> t = SFIXED32_TYPE then ''int32''
      else if t = INT64_TYPE \<or> t = SINT64_TYPE \<or> t = SFIXED64_TYPE then ''int64''
      else if t = UINT32_TYPE \<or> t = FIXED32_TYPE then ''uint32''
      else if t = UINT64_TYPE \<or> t = FIXED64_TYPE then ''uint64''
      else if t = BOOL_TYPE then ''bool''
      else ''string'')"

text \<open>The value of a field in the request: by declared name, then by JSON name.\<close>

definition lookupField :: "(string \<times> any) list \<Rightarrow> Field \<Rightarrow> any option" where
  "lookupField data field =
     (case map_of data (Field.Name field) of
        Some val \<Rightarrow> Some val
      | None \<Rightarrow> if JSONName field \<noteq> [] then map_of data (JSONName field) else None)"

text \<open>The field named \<open>value\<close> of a map entry message.\<close>

definition valueFieldOf :: "Message \<Rightarrow> Field option" where
  "valueFieldOf entryMsg = List.find (\<lambda>f. Field.Name f = ''value'') (Fields entryMsg)"

text \<open>The wrapper around the node of a field that belongs to a oneof group.\<close>

definition wrapOneOf :: "Message \<Rightarrow> Field \<Rightarrow> string \<Rightarrow> FieldNode \<Rightarrow> FieldNode" where
  "wrapOneOf msg field protoPkgName node =
     (case Group field of
        Some groupName \<Rightarrow>
          if IsOneOf field then
            FieldNode (toPascalCase groupName)
              (protoPkgName @ ''.'' @ Message.Name msg @ ''_''
                 @ (if toPascalCase (Field.Name field) \<in> set (Messages msg)
                    then toPascalCase (Field.Name field) @ ''_''
                    else toPascalCase (Field.Name field)))
              None True False False False [node] [] []
          else node
      | None \<Rightarrow> node)"

subsection \<open>The value tree\<close>

text \<open>
  The order in which \<open>range\<close> visits a map: the runtime's order when it is a
  rearrangement of the entries.
\<close>

definition rangeMap :: "goRuntime \<Rightarrow> (string \<times> any) list \<Rightarrow> (string \<times> any) list" where
  "rangeMap rt m = (if mset (mapOrder rt m) = mset m then mapOrder rt m else m)"

text \<open>The type of the values of a map field, and whether they are messages.\<close>

definition mapValType :: "Message list \<Rightarrow> Field \<Rightarrow> string \<Rightarrow> string \<times> bool" where
  "mapValType h valueField protoPkgName =
     (if Typez valueField = MESSAGE_TYPE then
        (case messageAt h (MessageType valueField) of
           None \<Rightarrow> (''string'', False)
         | Some mt \<Rightarrow> (''*'' @ getGoTypeName mt protoPkgName, True))
      else (''string'', False))"

text \<open>What a singular field's node takes over from the child node.\<close>

definition adoptChild :: "string \<Rightarrow> FieldNode \<Rightarrow> FieldNode" where
  "adoptChild goFieldName childNode =
     (if IsPrimitive childNode then
        FieldNode goFieldName [] (NodeValue childNode) False False False True [] [] []
      else if IsMessage childNode then
        FieldNode goFieldName (TypeName childNode) None True False False False
          (Children childNode) [] []
      else FieldNode goFieldName [] None False False False False [] [] [])"

lemma size_any_slice: "x \<in> set xs \<Longrightarrow> size x < size (AnySlice xs)"
  by (induction xs) auto

lemma size_any_map: "(k, v) \<in> set kvs \<Longrightarrow> size v < size (AnyMap kvs)"
  by (induction kvs) auto

lemma lookupField_mem: "lookupField data field = Some val \<Longrightarrow> val \<in> snd ` set data"
  by (auto simp: lookupField_def split: option.splits if_splits dest!: map_of_SomeD intro: rev_image_eqI)

lemma lookupField_size: "lookupField data field = Some val \<Longrightarrow> size val < size (AnyMap data)"
  using lookupField_mem[of data field val] size_any_map[of _ val data] by auto

lemma rangeMap_set: "set (rangeMap rt m) = set m"
  by (auto simp: rangeMap_def dest: mset_eq_setD)

function buildRequestInit ::
  "goRuntime \<Rightarrow> Message list \<Rightarrow> Message option \<Rightarrow> (string \<times> any) list \<Rightarrow> string
     \<Rightarrow> (FieldNode \<times> string list) option" where
  "buildRequestInit rt h msgp data protoPkg =
     (case msgp of
        None \<Rightarrow> None
      | Some msg \<Rightarrow>
          if length data = 0 then
            Some (FieldNode [] (getGoTypeName msg (protoPkgNameOf protoPkg)) None
                    True False False False [] [] [], [])
          else
            (case fold
               (\<lambda>field acc.
                  case acc of
                    None \<Rightarrow> None
                  | Some (children, allImports) \<Rightarrow>
                      (case lookupField data field of
                         None \<Rightarrow> acc
                       | Some val \<Rightarrow>
                           (case
                              (if Repeated field then
                                 (case val of
                                    AnySlice sliceVal \<Rightarrow>
                                      (case fold
                                         (\<lambda>item st.
                                            case st of
                                              None \<Rightarrow> None
                                            | Some (items, imports) \<Rightarrow>
                                                if Typez field = MESSAGE_TYPE then
                                                  (case item of
                                                     AnyMap subData \<Rightarrow>
                                                       (case buildRequestInit rt h
                                                               (messageAt h (MessageType field))
                                                               subData protoPkg of
                                                          None \<Rightarrow> None
                                                        | Some (subNode, subImports) \<Rightarrow>
                                                            Some (items @
                                                              [setTypeName
                                                                 (strings_TrimPrefix
                                                                    (elemTypeOf h field (protoPkgNameOf protoPkg)) ''*'')
                                                                 subNode],
                                                              imports @ subImports))
                                                   | _ \<Rightarrow> st)
                                                else
                                                  Some (items @
                                                    [primitiveNode []
                                                       (formatPrimitive rt item
                                                          (elemTypeOf h field (protoPkgNameOf protoPkg)))],
                                                    imports))
                                         sliceVal (Some ([], allImports)) of
                                         None \<Rightarrow> None
                                       | Some (items, imports) \<Rightarrow>
                                           Some (Some
                                             (FieldNode (toPascalCase (Field.Name field))
                                                (''[]'' @ elemTypeOf h field (protoPkgNameOf protoPkg))
                                                None False True False False [] items [],
                                              imports)))
                                  | _ \<Rightarrow> Some None)
                               else if IsMap field then
                                 (case val of
                                    AnyMap mapVal \<Rightarrow>
                                      (case messageAt h (MessageType field) of
                                         None \<Rightarrow> Some None
                                       | Some entryMsg \<Rightarrow>
                                           (case valueFieldOf entryMsg of
                                              None \<Rightarrow> Some None
                                            | Some valueField \<Rightarrow>
                                                (case fold
                                                   (\<lambda>kv st.
                                                      case st of
                                                        None \<Rightarrow> None
                                                      | Some (entries, imports) \<Rightarrow>
                                                          if snd (mapValType h valueField (protoPkgNameOf protoPkg)) then
                                                            (case snd kv of
                                                               AnyMap subData \<Rightarrow>
                                                                 (case buildRequestInit rt h
                                                                         (messageAt h (MessageType valueField))
                                                                         subData protoPkg of
                                                                    None \<Rightarrow> None
                                                                  | Some (subNode, subImports) \<Rightarrow>
                                                                      Some (entries @
                                                                        [(fst kv,
                                                                          setTypeName
                                                                            (strings_TrimPrefix
                                                                               (fst (mapValType h valueField (protoPkgNameOf protoPkg))) ''*'')
                                                                            subNode)],
                                                                        imports @ subImports))
                                                             | _ \<Rightarrow> st)
                                                          else
                                                            Some (entries @
                                                              [(fst kv,
                                                                primitiveNode []
                                                                  (formatPrimitive rt (snd kv)
                                                                     (fst (mapValType h valueField (protoPkgNameOf protoPkg)))))],
                                                              imports))
                                                   (rangeMap rt mapVal) (Some ([], allImports)) of
                                                   None \<Rightarrow> None
                                                 | Some (entries, imports) \<Rightarrow>
                                                     Some (Some
                                                       (FieldNode (toPascalCase (Field.Name field))
                                                          (''map[string]'' @ fst (mapValType h valueField (protoPkgNameOf protoPkg)))
                                                          None False False True False [] [] entries,
                                                        imports)))))
                                  | _ \<Rightarrow> Some None)
                               else if Typez field = MESSAGE_TYPE then
                                 (case messageAt h (MessageType field) of
                                    None \<Rightarrow> Some None
                                  | Some mt \<Rightarrow>
                                      (case val of
                                         AnyMap subData \<Rightarrow>
                                           (case buildRequestInit rt h (Some mt) subData protoPkg of
                                              None \<Rightarrow> None
                                            | Some (subNode, subImports) \<Rightarrow>
                                                Some (Some
                                                  (adoptChild (toPascalCase (Field.Name field))
                                                     (setTypeName (getGoTypeName mt (protoPkgNameOf protoPkg)) subNode),
                                                   allImports @ subImports)))
                                       | _ \<Rightarrow> Some None))
                               else
                                 Some (Some
                                   (adoptChild (toPascalCase (Field.Name field))
                                      (primitiveNode []
                                         (formatPrimitive rt val (scalarTypeStr (Typez field)))),
                                    allImports))) of
                              None \<Rightarrow> None
                            | Some None \<Rightarrow> acc
                            | Some (Some (node, imports)) \<Rightarrow>
                                Some (children @ [wrapOneOf msg field (protoPkgNameOf protoPkg) node],
                                      imports))))
               (Fields msg) (Some ([], [])) of
               None \<Rightarrow> None
             | Some (children, allImports) \<Rightarrow>
                 Some (FieldNode [] (getGoTypeName msg (protoPkgNameOf protoPkg)) None
                         True False False False children [] [],
                       allImports)))"
  by pat_completeness auto
termination
proof (relation "measure (\<lambda>(rt, h, msgp, data, protoPkg). size (AnyMap data))", goal_cases)
  case 1
  show ?case by simp
next
  case (2 rt h msgp data protoPkg msg field acc st children allImports val sliceVal item)
  from 2 have "size val < size (AnyMap data)" by (auto dest: lookupField_size)
  moreover from 2 have "size item < size val" by (auto dest: size_any_slice)
  ultimately show ?case using 2 by simp
next
  case (3 rt h msgp data protoPkg msg field acc st children allImports val mapVal entryMsg valueField kv)
  from 3 have "size val < size (AnyMap data)" by (auto dest: lookupField_size)
  moreover have "size (snd kv) < size val"
  proof -
    from 3 have "kv \<in> set mapVal" by (simp add: rangeMap_set)
    then have "(fst kv, snd kv) \<in> set mapVal" by simp
    then have "size (snd kv) < size (AnyMap mapVal)" by (rule size_any_map)
    with 3 show ?thesis by simp
  qed
  ultimately show ?case using 3 by simp
next
  case (4 rt h msgp data protoPkg msg field acc st children allImports val)
  from 4 have "size val < size (AnyMap data)" by (auto dest: lookupField_size)
  then show ?case using 4 by simp
qed

declare buildRequestInit.simps [simp del]

text \<open>\<open>Render\<close>; a primitive node without a value prints as \<open>%v\<close> prints \<open>nil\<close>.\<close>

fun Render :: "goRuntime \<Rightarrow> FieldNode \<Rightarrow> string" where
  "Render rt (FieldNode name typeName val isMessage isRepeated isMap isPrimitive
             children items entries) =
     (if isMessage then
        ''&'' @ typeName @ [CHR ''{'', CHR 0x0A]
          @ concat (map (\<lambda>child. NodeName child @ '': '' @ Render rt child @ [CHR '','', CHR 0x0A])
                      children)
          @ ''}''
      else if isRepeated then
        typeName @ [CHR ''{'', CHR 0x0A]
          @ concat (map (\<lambda>item. Render rt item @ [CHR '','', CHR 0x0A]) items)
          @ ''}''
      else if isMap then
        typeName @ [CHR ''{'', CHR 0x0A]
          @ concat (map (\<lambda>entry. quoteString rt (fst entry) @ '': '' @ Render rt (snd entry)
                                   @ [CHR '','', CHR 0x0A])
                      entries)
          @ ''}''
      else if isPrimitive then (case val of Some s \<Rightarrow> s | None \<Rightarrow> ''<nil>'')
      else [])"

definition stdRuntime :: goRuntime where
  "stdRuntime = \<lparr>mapOrder = (\<lambda>m. m), sprintfV = (\<lambda>v. []), sprintfQ = (\<lambda>v. []),
     outOfRangeInt64 = (\<lambda>v. 0), outOfRangeUint64 = (\<lambda>v. 0)\<rparr>"

definition revRuntime :: goRuntime where
  "revRuntime = \<lparr>mapOrder = rev, sprintfV = (\<lambda>v. []), sprintfQ = (\<lambda>v. []),
     outOfRangeInt64 = (\<lambda>v. 0), outOfRangeUint64 = (\<lambda>v. 0)\<rparr>"

definition scalarField :: "string \<Rightarrow> Typez \<Rightarrow> Field" where
  "scalarField name t =
     \<lparr>Field.Name = name, JSONName = [], Documentation = [], Typez = t, Repeated = False,
      IsMap = False, Behavior = [], MessageType = None, EnumType = None, IsOneOf = False,
      Group = None\<rparr>"

definition messageOf :: "string \<Rightarrow> Field list \<Rightarrow> Message" where
  "messageOf name fs =
     \<lparr>Message.Name = name, ID = name, Documentation = [], Fields = fs, Parent = None,
      Messages = []\<rparr>"

text \<open>The message of the test of the Go emitter with its map field \<open>labels\<close>.\<close>

definition labelsHeap :: "Message list" where
  "labelsHeap =
     [messageOf [] [scalarField ''key'' STRING_TYPE, scalarField ''value'' STRING_TYPE]]"

definition labelsMsg :: Message where
  "labelsMsg =
     messageOf ''TestMsg''
       [(scalarField ''labels'' MESSAGE_TYPE)\<lparr>IsMap := True, MessageType := Some 0\<rparr>]"

subsection \<open>The loop bodies of the builder, by name\<close>

text \<open>
  The bodies of the loops of \<open>buildRequestInit\<close> by name: one round over the items of
  a repeated field, one round over the entries of a map field, the node of one field,
  and one round over the fields of the message.
\<close>

definition itemStep ::
  "goRuntime \<Rightarrow> Message list \<Rightarrow> string \<Rightarrow> Field \<Rightarrow> any
     \<Rightarrow> (FieldNode list \<times> string list) option \<Rightarrow> (FieldNode list \<times> string list) option" where
  "itemStep rt h protoPkg field item st =
     (case st of
        None \<Rightarrow> None
      | Some (items, imports) \<Rightarrow>
          if Typez field = MESSAGE_TYPE then
            (case item of
               AnyMap subData \<Rightarrow>
                 (case buildRequestInit rt h (messageAt h (MessageType field)) subData protoPkg of
                    None \<Rightarrow> None
                  | Some (subNode, subImports) \<Rightarrow>
                      Some (items @
                        [setTypeName
                           (strings_TrimPrefix (elemTypeOf h field (protoPkgNameOf protoPkg)) ''*'')
                           subNode],
                        imports @ subImports))
             | _ \<Rightarrow> st)
          else
            Some (items @
              [primitiveNode []
                 (formatPrimitive rt item (elemTypeOf h field (protoPkgNameOf protoPkg)))],
              imports))"

definition entryStep ::
  "goRuntime \<Rightarrow> Message list \<Rightarrow> string \<Rightarrow> Field \<Rightarrow> string \<times> any
     \<Rightarrow> ((string \<times> FieldNode) list \<times> string list) option
     \<Rightarrow> ((string \<times> FieldNode) list \<times> string list) option" where
  "entryStep rt h protoPkg valueField kv st =
     (case st of
        None \<Rightarrow> None
      | Some (entries, imports) \<Rightarrow>
          if snd (mapValType h valueField (protoPkgNameOf protoPkg)) then
            (case snd kv of
               AnyMap subData \<Rightarrow>
                 (case buildRequestInit rt h (messageAt h (MessageType valueField))
                         subData protoPkg of
                    None \<Rightarrow> None
                  | Some (subNode, subImports) \<Rightarrow>
                      Some (entries @
                        [(fst kv,
                          setTypeName
                            (strings_TrimPrefix
                               (fst (mapValType h valueField (protoPkgNameOf protoPkg))) ''*'')
                            subNode)],
                        imports @ subImports))
             | _ \<Rightarrow> st)
          else
            Some (entries @
              [(fst kv,
                primitiveNode []
                  (formatPrimitive rt (snd kv)
                     (fst (mapValType h valueField (protoPkgNameOf protoPkg)))))],
              imports))"

definition fieldNodeOf ::
  "goRuntime \<Rightarrow> Message list \<Rightarrow> string \<Rightarrow> Field \<Rightarrow> any \<Rightarrow> string list
     \<Rightarrow> (FieldNode \<times> string list) option option" where
  "fieldNodeOf rt h protoPkg field val allImports =
     (if Repeated field then
        (case val of
           AnySlice sliceVal \<Rightarrow>
             (case fold (itemStep rt h protoPkg field) sliceVal (Some ([], allImports)) of
                None \<Rightarrow> None
              | Some (items, imports) \<Rightarrow>
                  Some (Some
                    (FieldNode (toPascalCase (Field.Name field))
                       (''[]'' @ elemTypeOf h field (protoPkgNameOf protoPkg))
                       None False True False False [] items [],
                     imports)))
         | _ \<Rightarrow> Some None)
      else if IsMap field then
        (case val of
           AnyMap mapVal \<Rightarrow>
             (case messageAt h (MessageType field) of
                None \<Rightarrow> Some None
              | Some entryMsg \<Rightarrow>
                  (case valueFieldOf entryMsg of
                     None \<Rightarrow> Some None
                   | Some valueField \<Rightarrow>
                       (case fold (entryStep rt h protoPkg valueField) (rangeMap rt mapVal)
                               (Some ([], allImports)) of
                          None \<Rightarrow> None
                        | Some (entries, imports) \<Rightarrow>
                            Some (Some
                              (FieldNode (toPascalCase (Field.Name field))
                                 (''map[string]''
                                    @ fst (mapValType h valueField (protoPkgNameOf protoPkg)))
                                 None False False True False [] [] entries,
                               imports)))))
         | _ \<Rightarrow> Some None)
      else if Typez field = MESSAGE_TYPE then
        (case messageAt h (MessageType field) of
           None \<Rightarrow> Some None
         | Some mt \<Rightarrow>
             (case val of
                AnyMap subData \<Rightarrow>
                  (case buildRequestInit rt h (Some mt) subData protoPkg of
                     None \<Rightarrow> None
                   | Some (subNode, subImports) \<Rightarrow>
                       Some (Some
                         (adoptChild (toPascalCase (Field.Name field))
                            (setTypeName (getGoTypeName mt (protoPkgNameOf protoPkg)) subNode),
                          allImports @ subImports)))
              | _ \<Rightarrow> Some None))
      else
        Some (Some
          (adoptChild (toPascalCase (Field.Name field))
             (primitiveNode [] (formatPrimitive rt val (scalarTypeStr (Typez field)))),
           allImports)))"

definition fieldStep ::
  "goRuntime \<Rightarrow> Message list \<Rightarrow> string \<Rightarrow> Message \<Rightarrow> (string \<times> any) list \<Rightarrow> Field
     \<Rightarrow> (FieldNode list \<times> string list) option \<Rightarrow> (FieldNode list \<times> string list) option" where
  "fieldStep rt h protoPkg msg data field acc =
     (case acc of
        None \<Rightarrow> None
      | Some (children, allImports) \<Rightarrow>
          (case lookupField data field of
             None \<Rightarrow> acc
           | Some val \<Rightarrow>
               (case fieldNodeOf rt h protoPkg field val allImports of
                  None \<Rightarrow> None
                | Some None \<Rightarrow> acc
                | Some (Some (node, imports)) \<Rightarrow>
                    Some (children @ [wrapOneOf msg field (protoPkgNameOf protoPkg) node],
                          imports))))"

text \<open>The children a field contributes.\<close>

definition childrenOf ::
  "goRuntime \<Rightarrow> Message list \<Rightarrow> string \<Rightarrow> Message \<Rightarrow> (string \<times> any) list \<Rightarrow> Field
     \<Rightarrow> FieldNode list" where
  "childrenOf rt h protoPkg msg data field =
     (case lookupField data field of
        None \<Rightarrow> []
      | Some val \<Rightarrow>
          (case fieldNodeOf rt h protoPkg field val [] of
             Some (Some (node, imports)) \<Rightarrow> [wrapOneOf msg field (protoPkgNameOf protoPkg) node]
           | _ \<Rightarrow> []))"

text \<open>
  Every repeated field of message type has its message in the table.  (The loop over
  the items of such a field passes the field's message type on without a check.)
\<close>

definition repeatedResolved :: "Message list \<Rightarrow> Message \<Rightarrow> bool" where
  "repeatedResolved h msg =
     list_all
       (\<lambda>f. \<not> (Repeated f \<and> Typez f = MESSAGE_TYPE) \<or> messageAt h (MessageType f) \<noteq> None)
       (Fields msg)"

text \<open>
  The value found for a field has the shape its type asks for: a slice for a repeated
  field, a map for a map field whose entry message is in the table and has a field named
  \<open>value\<close>, a map for a message field whose message is in the table.
\<close>

definition shapeFits :: "Message list \<Rightarrow> Field \<Rightarrow> any \<Rightarrow> bool" where
  "shapeFits h f val =
     (if Repeated f then (case val of AnySlice xs \<Rightarrow> True | _ \<Rightarrow> False)
      else if IsMap f then
        (case val of
           AnyMap m \<Rightarrow>
             (case messageAt h (MessageType f) of
                None \<Rightarrow> False
              | Some entryMsg \<Rightarrow> valueFieldOf entryMsg \<noteq> None)
         | _ \<Rightarrow> False)
      else if Typez f = MESSAGE_TYPE then
        (case val of AnyMap m \<Rightarrow> messageAt h (MessageType f) \<noteq> None | _ \<Rightarrow> False)
      else True)"

definition fieldEmitted :: "Message list \<Rightarrow> (string \<times> any) list \<Rightarrow> Field \<Rightarrow> bool" where
  "fieldEmitted h data f =
     (case lookupField data f of None \<Rightarrow> False | Some val \<Rightarrow> shapeFits h f val)"

definition fieldPresent :: "(string \<times> any) list \<Rightarrow> Field \<Rightarrow> bool" where
  "fieldPresent data f = (lookupField data f \<noteq> None)"

text \<open>The name of the child of a field: the field's, or its oneof group's.\<close>

definition childName :: "Field \<Rightarrow> string" where
  "childName f =
     (case Group f of
        Some groupName \<Rightarrow>
          if IsOneOf f then toPascalCase groupName else toPascalCase (Field.Name f)
      | None \<Rightarrow> toPascalCase (Field.Name f))"

definition signedIntType :: "Typez \<Rightarrow> bool" where
  "signedIntType t =
     (t = INT32_TYPE \<or> t = SINT32_TYPE \<or> t = SFIXED32_TYPE
      \<or> t = INT64_TYPE \<or> t = SINT64_TYPE \<or> t = SFIXED64_TYPE)"

definition unsignedIntType :: "Typez \<Rightarrow> bool" where
  "unsignedIntType t =
     (t = UINT32_TYPE \<or> t = FIXED32_TYPE \<or> t = UINT64_TYPE \<or> t = FIXED64_TYPE)"

text \<open>A printable ASCII character other than the quote and the backslash.\<close>

definition plainChar :: "char \<Rightarrow> bool" where
  "plainChar c =
     (32 \<le> (of_char c :: nat) \<and> (of_char c :: nat) < 127
      \<and> (of_char c :: nat) \<noteq> 34 \<and> (of_char c :: nat) \<noteq> 92)"

definition basicMsg :: Message where
  "basicMsg =
     messageOf ''TestMsg''
       [scalarField ''foo'' STRING_TYPE,
        (scalarField ''baz'' STRING_TYPE)\<lparr>JSONName := ''bazJson''\<rparr>,
        scalarField ''id'' INT32_TYPE,
        (scalarField ''items'' STRING_TYPE)\<lparr>Repeated := True\<rparr>]"

definition basicRequest :: "(string \<times> any) list" where
  "basicRequest = [(''bazJson'', AnyString ''qux''), (''foo'', AnyString ''bar'')]"

text \<open>The three scalar fields of the examples and a request for them.\<close>

definition scalarsMsg :: Message where
  "scalarsMsg =
     messageOf ''M''
       [scalarField ''id'' INT64_TYPE, scalarField ''n'' UINT32_TYPE,
        scalarField ''foo'' STRING_TYPE]"

definition scalarsRequest :: "(string \<times> any) list" where
  "scalarsRequest = [(''id'', AnyFloat64 (- 7.5)), (''n'', AnyFloat64 42.9), (''foo'', AnyString ''bar'')]"

definition labelsRequest :: "(string \<times> any) list" where
  "labelsRequest = [(''labels'', AnyMap [(''k1'', AnyString ''v1''), (''k2'', AnyString ''v2'')])]"


section \<open>Verified properties\<close>

subsection \<open>Path template matcher\<close>

lemma matchLoop_rest:
  "matchLoop parts segs lit cap = Some (cap', rest) \<Longrightarrow> rest = drop (length parts) segs"
  by (induction parts segs lit cap rule: matchLoop.induct) (auto split: if_splits)

lemma matchLoop_mismatch:
  "i < length segs \<Longrightarrow> i < length parts \<Longrightarrow> \<not> isWildcard (segs ! i) \<Longrightarrow> parts ! i \<noteq> segs ! i
   \<Longrightarrow> matchLoop parts segs lit cap = None"
proof (induction parts segs lit cap arbitrary: i rule: matchLoop.induct)
  case (1 part parts seg segments lastLiteral captured)
  then show ?case by (cases i) auto
qed auto

lemma map_of_map_set: "map_of (map_set k v m) = (map_of m)(k \<mapsto> v)"
  by (induction m) (auto simp: fun_eq_iff)

lemma matchLoop_keeps:
  "matchLoop parts segs lit cap = Some (cap', rest) \<Longrightarrow> k \<notin> set (captureKeys segs lit)
   \<Longrightarrow> map_of cap' k = map_of cap k"
proof (induction parts segs lit cap rule: matchLoop.induct)
  case (1 part parts seg segments lastLiteral captured)
  then show ?case by (auto split: if_splits simp: map_of_map_set)
qed auto

lemma matchLoop_capture:
  "matchLoop parts (pre @ lit # w # post) l0 cap = Some (cap', []) \<Longrightarrow>
   isWildcard w \<Longrightarrow> \<not> isWildcard lit \<Longrightarrow> lit \<noteq> [] \<Longrightarrow>
   strings_TrimSuffix lit ''s'' \<notin> set (captureKeys post lit) \<Longrightarrow>
   map_of cap' (strings_TrimSuffix lit ''s'') = Some (parts ! (length pre + 1))
   \<and> length pre + 1 < length parts"
proof (induction pre arbitrary: parts l0 cap)
  case Nil
  from Nil obtain p q ps where parts: "parts = p # q # ps"
    by (cases parts; cases "tl parts") (auto split: if_splits)
  with Nil have m: "matchLoop ps post lit (map_set (strings_TrimSuffix lit ''s'') q cap) = Some (cap', [])"
    by (auto split: if_splits)
  from matchLoop_keeps[OF m Nil(5)] show ?case
    by (simp add: parts map_of_map_set)
next
  case (Cons a pre)
  then show ?case
    by (cases parts) (auto split: if_splits)
qed

lemma matchLoop_after_literal:
  "matchLoop parts (ws @ w # post) lit cap = Some (cap', []) \<Longrightarrow>
   list_all isWildcard ws \<Longrightarrow> isWildcard w \<Longrightarrow> lit \<noteq> [] \<Longrightarrow>
   strings_TrimSuffix lit ''s'' \<notin> set (captureKeys post lit) \<Longrightarrow>
   length ws < length parts
   \<and> map_of cap' (strings_TrimSuffix lit ''s'') = Some (parts ! length ws)"
proof (induction ws arbitrary: parts cap)
  case Nil
  from Nil obtain q ps where parts: "parts = q # ps"
    by (cases parts) auto
  with Nil have m: "matchLoop ps post lit (map_set (strings_TrimSuffix lit ''s'') q cap) = Some (cap', [])"
    by (auto split: if_splits)
  from matchLoop_keeps[OF m Nil(5)] show ?case
    by (simp add: parts map_of_map_set)
next
  case (Cons a ws)
  from Cons.prems obtain q ps where parts: "parts = q # ps"
    by (cases parts) auto
  with Cons.prems have m: "matchLoop ps (ws @ w # post) lit
      (map_set (strings_TrimSuffix lit ''s'') q cap) = Some (cap', [])"
    by (auto split: if_splits)
  from Cons.IH[OF m] Cons.prems show ?case
    by (simp add: parts)
qed

lemma matchLoop_capture_general:
  "matchLoop parts (pre @ lit # ws @ w # post) l0 cap = Some (cap', []) \<Longrightarrow>
   \<not> isWildcard lit \<Longrightarrow> lit \<noteq> [] \<Longrightarrow> list_all isWildcard ws \<Longrightarrow> isWildcard w \<Longrightarrow>
   strings_TrimSuffix lit ''s'' \<notin> set (captureKeys post lit) \<Longrightarrow>
   length pre + 1 + length ws < length parts
   \<and> map_of cap' (strings_TrimSuffix lit ''s'') = Some (parts ! (length pre + 1 + length ws))"
proof (induction pre arbitrary: parts l0 cap)
  case Nil
  from Nil obtain p ps where parts: "parts = p # ps"
    by (cases parts) auto
  with Nil have m: "matchLoop ps (ws @ w # post) lit cap = Some (cap', [])"
    by (auto split: if_splits)
  from matchLoop_after_literal[OF m Nil(4,5,3,6)] show ?case
    by (simp add: parts)
next
  case (Cons a pre)
  from Cons.prems obtain p ps where parts: "parts = p # ps"
    by (cases parts) auto
  with Cons.prems obtain l1 c1 where m: "matchLoop ps (pre @ lit # ws @ w # post) l1 c1 = Some (cap', [])"
    by (auto split: if_splits)
  from Cons.IH[OF m Cons.prems(2-6)] show ?case
    by (simp add: parts)
qed

lemma fst_set_map_set: "fst ` set (map_set k v m) = insert k (fst ` set m)"
  by (simp add: dom_map_of_conv_image_fst[symmetric] map_of_map_set)

lemma matchLoop_keys:
  "matchLoop parts segs lit cap = Some (cap', rest) \<Longrightarrow>
     fst ` set cap' \<subseteq> fst ` set cap \<union> set (captureKeys segs lit)"
proof (induction parts segs lit cap rule: matchLoop.induct)
  case (1 part parts seg segments lastLiteral captured)
  then show ?case
    by (auto split: if_splits simp: fst_set_map_set)
qed auto

text \<open>
  Claim C5 (amended).  \<open>matchPath\<close> scans the slash-delimited parts of the value
  against the pattern tokens from left to right.  A literal token that differs from the
  value part at its position makes the decomposition fail (\<open>None\<close>).  When the
  decomposition succeeds, a wildcard token captures the value part at its position under
  the most recent literal token before it, with one trailing \<open>s\<close> removed, provided
  that literal is not empty and no later wildcard captures under the same key (a later
  capture overwrites an earlier one).  Every key of the result is such a singular form
  of a non-empty literal that precedes a wildcard: a wildcard with no non-empty literal
  before it captures nothing.
\<close>

theorem matchPath_scan:
  "(i < length segments \<and> i < length (strings_Split value CHR ''/'')
      \<and> \<not> isWildcard (segments ! i)
      \<and> strings_Split value CHR ''/'' ! i \<noteq> segments ! i
      \<longrightarrow> matchPath value segments = None)
   \<and> (matchPath value (pre @ lit # ws @ w # post) = Some captured
      \<and> \<not> isWildcard lit \<and> lit \<noteq> [] \<and> list_all isWildcard ws \<and> isWildcard w
      \<and> strings_TrimSuffix lit ''s'' \<notin> set (captureKeys post lit)
      \<longrightarrow> length pre + 1 + length ws < length (strings_Split value CHR ''/'')
        \<and> map_of captured (strings_TrimSuffix lit ''s'')
            = Some (strings_Split value CHR ''/'' ! (length pre + 1 + length ws)))
   \<and> (matchPath value segments = Some captured
      \<longrightarrow> fst ` set captured \<subseteq> set (captureKeys segments []))"
proof (intro conjI impI)
  assume "i < length segments \<and> i < length (strings_Split value CHR ''/'')
      \<and> \<not> isWildcard (segments ! i)
      \<and> strings_Split value CHR ''/'' ! i \<noteq> segments ! i"
  then have "matchLoop (strings_Split value CHR ''/'') segments [] [] = None"
    by (intro matchLoop_mismatch[of i]) simp_all
  then show "matchPath value segments = None"
    by (simp add: matchPath_def)
next
  assume a: "matchPath value (pre @ lit # ws @ w # post) = Some captured
      \<and> \<not> isWildcard lit \<and> lit \<noteq> [] \<and> list_all isWildcard ws \<and> isWildcard w
      \<and> strings_TrimSuffix lit ''s'' \<notin> set (captureKeys post lit)"
  then have "matchLoop (strings_Split value CHR ''/'') (pre @ lit # ws @ w # post) [] []
      = Some (captured, [])"
    by (auto simp: matchPath_def split: option.splits if_splits)
  from matchLoop_capture_general[OF this] a
  show "length pre + 1 + length ws < length (strings_Split value CHR ''/'')"
    and "map_of captured (strings_TrimSuffix lit ''s'')
            = Some (strings_Split value CHR ''/'' ! (length pre + 1 + length ws))"
    by simp_all
next
  assume "matchPath value segments = Some captured"
  then obtain rest where "matchLoop (strings_Split value CHR ''/'') segments [] []
      = Some (captured, rest)"
    by (auto simp: matchPath_def split: option.splits if_splits)
  from matchLoop_keys[OF this]
  show "fst ` set captured \<subseteq> set (captureKeys segments [])" by simp
qed

theorem matchPath_scan_witness:
  "matchPath ''folders/f1'' [''projects'', ''*''] = None
   \<and> (\<exists>captured. matchPath ''projects/p1/locations/l1''
          [''projects'', ''*'', ''locations'', ''*''] = Some captured
        \<and> map_of captured ''location'' = Some ''l1''
        \<and> fst ` set captured \<subseteq> {''project'', ''location''})"
proof -
  have h1: "0 < length [''projects'', ''*''] \<and> 0 < length (strings_Split ''folders/f1'' CHR ''/'')
      \<and> \<not> isWildcard ([''projects'', ''*''] ! 0)
      \<and> strings_Split ''folders/f1'' CHR ''/'' ! 0 \<noteq> [''projects'', ''*''] ! 0"
    by (simp add: isWildcard_def)
  have m: "matchPath ''projects/p1/locations/l1''
      ([''projects'', ''*''] @ ''locations'' # [] @ ''*'' # [])
      = Some [(''project'', ''p1''), (''location'', ''l1'')]"
    by (simp add: matchPath_def isWildcard_def strings_TrimSuffix_def)
  have h2: "\<not> isWildcard ''locations'' \<and> ''locations'' \<noteq> [] \<and> list_all isWildcard []
      \<and> isWildcard ''*''
      \<and> strings_TrimSuffix ''locations'' ''s'' \<notin> set (captureKeys [] ''locations'')"
    by (simp add: isWildcard_def)
  have k: "set (captureKeys ([''projects'', ''*''] @ ''locations'' # [] @ ''*'' # []) [])
      = {''project'', ''location''}"
    by (simp add: isWildcard_def strings_TrimSuffix_def)
  from matchPath_scan[of 0 "[''projects'', ''*'']" "''folders/f1''"] h1
  have c1: "matchPath ''folders/f1'' [''projects'', ''*''] = None"
    by blast
  from matchPath_scan[of _ "[''projects'', ''*''] @ ''locations'' # [] @ ''*'' # []"
      "''projects/p1/locations/l1''" "[''projects'', ''*'']"
      "''locations''" "[]" "''*''" "[]" "[(''project'', ''p1''), (''location'', ''l1'')]"] m h2
  have c2: "map_of [(''project'', ''p1''), (''location'', ''l1'')]
      (strings_TrimSuffix ''locations'' ''s'')
      = Some (strings_Split ''projects/p1/locations/l1'' CHR ''/''
                ! (length [''projects'', ''*''] + 1 + length ([]::string list)))"
    and c3: "fst ` set [(''project'', ''p1''), (''location'', ''l1'')]
      \<subseteq> set (captureKeys ([''projects'', ''*''] @ ''locations'' # [] @ ''*'' # []) [])"
    by blast+
  from c1 c2 c3 m show ?thesis
    unfolding k by (simp add: strings_TrimSuffix_def)
qed

text \<open>
  As stated the claim fails: a wildcard with no literal before it captures nothing, and
  of two wildcards after one literal only the second capture remains.
\<close>

theorem matchPath_wildcard_counterexample:
  "matchPath ''p1'' [''*''] = Some []
   \<and> matchPath ''projects/p1/p2'' [''projects'', ''*'', ''*''] = Some [(''project'', ''p2'')]"
  by (simp add: matchPath_def isWildcard_def strings_TrimSuffix_def)

subsection \<open>Selection among candidate bindings\<close>


lemma lt_cand_mono: "lt_cand n c \<Longrightarrow> n \<le> m \<Longrightarrow> lt_cand m c"
  by (auto simp: lt_cand_def split: option.splits)









subsection \<open>Empty values and the gcloud flags\<close>

lemma find_None_norm:
  "(\<And>c. c \<in> set cs \<Longrightarrow> normalizeChoice lib c \<noteq> n)
     \<Longrightarrow> List.find (\<lambda>choice. n = normalizeChoice lib choice) cs = None"
  by (induction cs) auto

lemma normalizeChoice_Nil: "normalizeChoice lib [] = []"
  by (simp add: normalizeChoice_def strings_RemoveAll_def strings_ToLower_def isASCII_def)

lemma mappingValue_empty:
  assumes "gjson_Get data (FlagMapping.FieldPath prop) = Some (JString []) \<or> gjson_Get data (FlagMapping.FieldPath prop) = Some JNull"
    and "\<And>c. c \<in> set (Choices prop) \<Longrightarrow> normalizeChoice lib c \<noteq> []"
  shows "mappingValue lib data prop = []"
proof -
  have f: "List.find (\<lambda>choice. [] = normalizeChoice lib choice) (Choices prop) = None"
    using assms(2) by (intro find_None_norm) auto
  from assms(1) show ?thesis
    by (auto simp: mappingValue_def Let_def compactValue_def resolveChoice_def arrayValue_def
        normalizeChoice_Nil f)
qed

lemma applyMapping_empty:
  assumes "Pos prop = None" "mappingValue lib data prop = []"
  shows "applyMapping lib data used prop st = st"
  using assms by (simp add: applyMapping_def)

lemma buildGcloudData_drop:
  assumes "Pos prop = None"
    and "gjson_Get data (FlagMapping.FieldPath prop) = Some (JString []) \<or> gjson_Get data (FlagMapping.FieldPath prop) = Some JNull"
    and "\<And>c. c \<in> set (Choices prop) \<Longrightarrow> normalizeChoice lib c \<noteq> []"
  shows "buildGcloudData lib method (mapping\<lparr>Properties := ps1 @ prop # ps2\<rparr>) data
       = buildGcloudData lib method (mapping\<lparr>Properties := ps1 @ ps2\<rparr>) data"
proof -
  have "\<And>used st. applyMapping lib data used prop st = st"
    using applyMapping_empty[OF assms(1) mappingValue_empty[OF assms(2,3)]] by simp
  then have "\<And>used st. fold (applyMapping lib data used) (ps1 @ prop # ps2) st
      = fold (applyMapping lib data used) (ps1 @ ps2) st"
    by simp
  then show ?thesis
    by (simp add: buildGcloudData_def)
qed

text \<open>
  Claim C4 (amended).  A named-flag mapping whose located value is the empty string or
  the literal \<open>null\<close>, and none of whose declared choices normalizes to the empty
  string, contributes nothing: the generated data is what it would be without the
  mapping.  For the request and the three mappings of the test the only flag is
  \<open>--present 'here'\<close>.
\<close>

theorem empty_value_no_flag:
  "(Pos fm = None
      \<and> (gjson_Get data (FlagMapping.FieldPath fm) = Some (JString [])
           \<or> gjson_Get data (FlagMapping.FieldPath fm) = Some JNull)
      \<and> list_all (\<lambda>c. normalizeChoice lib c \<noteq> []) (Choices fm)
    \<longrightarrow> buildGcloudData lib m (mapping\<lparr>Properties := before @ fm # after\<rparr>) data
        = buildGcloudData lib m (mapping\<lparr>Properties := before @ after\<rparr>) data)
   \<and> Flags (buildGcloudData lib None skipEmptyMapping skipEmptyRequest)
       = [\<lparr>Name = ''--present'', Value = ''here'', IsLast = True\<rparr>]"
proof (intro conjI impI)
  assume a: "Pos fm = None
      \<and> (gjson_Get data (FlagMapping.FieldPath fm) = Some (JString [])
           \<or> gjson_Get data (FlagMapping.FieldPath fm) = Some JNull)
      \<and> list_all (\<lambda>c. normalizeChoice lib c \<noteq> []) (Choices fm)"
  then have "\<And>c. c \<in> set (Choices fm) \<Longrightarrow> normalizeChoice lib c \<noteq> []"
    by (simp add: list_all_iff)
  with a show "buildGcloudData lib m (mapping\<lparr>Properties := before @ fm # after\<rparr>) data
        = buildGcloudData lib m (mapping\<lparr>Properties := before @ after\<rparr>) data"
    by (intro buildGcloudData_drop) simp_all
next
  show "Flags (buildGcloudData lib None skipEmptyMapping skipEmptyRequest)
       = [\<lparr>Name = ''--present'', Value = ''here'', IsLast = True\<rparr>]"
    by (simp add: buildGcloudData_def decomposePathParams_def skipEmptyMapping_def
        skipEmptyRequest_def namedFlag_def applyMapping_def mappingValue_def gjson_Get_def
        compactValue_def resolveChoice_def arrayValue_def markLast_def)
qed

theorem empty_value_no_flag_witness:
  "buildGcloudData stdLibrary None skipEmptyMapping skipEmptyRequest
     = buildGcloudData stdLibrary None
         (skipEmptyMapping\<lparr>Properties := [namedFlag ''--present'' ''present'' [],
                                          namedFlag ''--null'' ''null_val'' []]\<rparr>)
         skipEmptyRequest"
proof -
  have h: "Pos (namedFlag ''--empty'' ''empty'' []) = None
      \<and> (gjson_Get skipEmptyRequest (FlagMapping.FieldPath (namedFlag ''--empty'' ''empty'' []))
            = Some (JString [])
           \<or> gjson_Get skipEmptyRequest (FlagMapping.FieldPath (namedFlag ''--empty'' ''empty'' []))
            = Some JNull)
      \<and> list_all (\<lambda>c. normalizeChoice stdLibrary c \<noteq> []) (Choices (namedFlag ''--empty'' ''empty'' []))"
    by (simp add: namedFlag_def skipEmptyRequest_def gjson_Get_def)
  have m: "skipEmptyMapping\<lparr>Properties := [namedFlag ''--present'' ''present'' []]
             @ namedFlag ''--empty'' ''empty'' [] # [namedFlag ''--null'' ''null_val'' []]\<rparr>
           = skipEmptyMapping"
    by (simp add: skipEmptyMapping_def)
  from empty_value_no_flag[where fm = "namedFlag ''--empty'' ''empty'' []"
      and data = skipEmptyRequest and lib = stdLibrary and m = None
      and mapping = skipEmptyMapping and before = "[namedFlag ''--present'' ''present'' []]"
      and after = "[namedFlag ''--null'' ''null_val'' []]"] h
  have "buildGcloudData stdLibrary None
          (skipEmptyMapping\<lparr>Properties := [namedFlag ''--present'' ''present'' []]
             @ namedFlag ''--empty'' ''empty'' [] # [namedFlag ''--null'' ''null_val'' []]\<rparr>)
          skipEmptyRequest
        = buildGcloudData stdLibrary None
          (skipEmptyMapping\<lparr>Properties := [namedFlag ''--present'' ''present'' []]
             @ [namedFlag ''--null'' ''null_val'' []]\<rparr>)
          skipEmptyRequest"
    by blast
  then show ?thesis unfolding m by simp
qed

text \<open>
  As stated the claim fails: the choice \<open>-\<close> normalizes to the empty string, matches
  the empty value and becomes the value of the flag.
\<close>

theorem empty_value_choice_counterexample:
  "gjson_Get skipEmptyRequest ''empty'' = Some (JString [])
   \<and> Flags (buildGcloudData stdLibrary None
        \<lparr>gcloudMappingFile.Command = ''gcloud test'', MessageID = ''TestMsg'',
         Properties = [namedFlag ''--empty'' ''empty'' [''-'']]\<rparr>
        skipEmptyRequest)
     = [\<lparr>Name = ''--empty'', Value = ''-'', IsLast = True\<rparr>]"
  by (simp add: buildGcloudData_def decomposePathParams_def
        skipEmptyRequest_def namedFlag_def applyMapping_def mappingValue_def gjson_Get_def
        compactValue_def resolveChoice_def arrayValue_def markLast_def normalizeChoice_def
        strings_RemoveAll_def strings_ToLower_def toLowerChar_def isASCII_def
        stdLibrary_def)


subsection \<open>Choice resolution\<close>
















subsection \<open>Failing candidates\<close>

lemma bindingsLoop_filter:
  "bindingsLoop data bs best
     = bindingsLoop data (filter (\<lambda>b. decomposeBinding data b \<noteq> None) bs) best"
  by (induction bs arbitrary: best) (auto split: option.splits)

lemma bindingsLoop_all_fail:
  "list_all (\<lambda>b. decomposeBinding data b = None) bs \<Longrightarrow> bindingsLoop data bs best = best"
  by (induction bs arbitrary: best) auto

lemma decomposePathParams_all_fail:
  "PathInfo m = Some pinfo \<Longrightarrow> list_all (\<lambda>b. decomposeBinding data b = None) (Bindings pinfo)
     \<Longrightarrow> decomposePathParams (Some m) data = ([], {})"
  by (simp add: decomposePathParams_def bindingsLoop_all_fail)

lemma buildGcloudData_Command:
  "gcloudData.Command (buildGcloudData lib method mapping data) = gcloudMappingFile.Command mapping"
  by (simp add: buildGcloudData_def split: prod.splits)

text \<open>
  Claim C8.  A candidate binding that fails is merely left out: decomposition over the
  bindings equals decomposition over the bindings that do not fail.  When every
  candidate fails the decomposition is empty, the data handed to the template is the data
  of a method without bindings, and \<open>GenerateGcloud\<close> returns no error as long as
  reading the mapping, rendering and writing succeed.
\<close>

theorem failing_candidates_are_no_error:
  "decomposePathParams (Some (m\<lparr>PathInfo := Some \<lparr>Bindings = bs\<rparr>\<rparr>)) data
     = decomposePathParams
         (Some (m\<lparr>PathInfo :=
            Some \<lparr>Bindings = filter (\<lambda>b. decomposeBinding data b \<noteq> None) bs\<rparr>\<rparr>)) data
   \<and> (PathInfo m = Some pinfo
        \<and> list_all (\<lambda>b. decomposeBinding data b = None) (Bindings pinfo)
      \<longrightarrow> decomposePathParams (Some m) data = ([], {})
          \<and> buildGcloudData lib (Some m) mapping data = buildGcloudData lib None mapping data)
   \<and> (PathInfo m = Some pinfo
        \<and> list_all (\<lambda>b. decomposeBinding data b = None) (Bindings pinfo)
        \<and> readMappingFile env = Some bytes
        \<and> unmarshalMapping env bytes = Some mapping
        \<and> mustacheRender env (buildGcloudData (library env) None mapping data) = Some s
        \<and> mkdirAll env \<and> writeFile env s
      \<longrightarrow> GenerateGcloud env (Some m) data = Inr s)"
proof (intro conjI impI)
  show "decomposePathParams (Some (m\<lparr>PathInfo := Some \<lparr>Bindings = bs\<rparr>\<rparr>)) data
     = decomposePathParams
         (Some (m\<lparr>PathInfo :=
            Some \<lparr>Bindings = filter (\<lambda>b. decomposeBinding data b \<noteq> None) bs\<rparr>\<rparr>)) data"
    using bindingsLoop_filter[of data bs "([], {})"]
    by (simp add: decomposePathParams_def)
next
  assume a: "PathInfo m = Some pinfo
        \<and> list_all (\<lambda>b. decomposeBinding data b = None) (Bindings pinfo)"
  then show e: "decomposePathParams (Some m) data = ([], {})"
    by (simp add: decomposePathParams_all_fail)
  then show "buildGcloudData lib (Some m) mapping data = buildGcloudData lib None mapping data"
    by (simp add: buildGcloudData_def decomposePathParams_def)
next
  assume a: "PathInfo m = Some pinfo
        \<and> list_all (\<lambda>b. decomposeBinding data b = None) (Bindings pinfo)
        \<and> readMappingFile env = Some bytes
        \<and> unmarshalMapping env bytes = Some mapping
        \<and> mustacheRender env (buildGcloudData (library env) None mapping data) = Some s
        \<and> mkdirAll env \<and> writeFile env s"
  then have "decomposePathParams (Some m) data = ([], {})"
    by (simp add: decomposePathParams_all_fail)
  then have "buildGcloudData (library env) (Some m) mapping data
      = buildGcloudData (library env) None mapping data"
    by (simp add: buildGcloudData_def decomposePathParams_def)
  with a show "GenerateGcloud env (Some m) data = Inr s"
    by (simp add: GenerateGcloud_def)
qed

theorem failing_candidates_are_no_error_witness:
  "decomposeBinding (parentRequest ''projects/p1'') (parentBinding [''folders'', ''*'']) = None
   \<and> decomposePathParams (Some (methodOf [parentBinding [''folders'', ''*'']]))
        (parentRequest ''projects/p1'') = ([], {})
   \<and> GenerateGcloud (okEnv skipEmptyMapping) (Some (methodOf [parentBinding [''folders'', ''*'']]))
        (parentRequest ''projects/p1'') = Inr ''gcloud test''"
proof -
  let ?m = "methodOf [parentBinding [''folders'', ''*'']]"
  let ?data = "parentRequest ''projects/p1''"
  have f: "decomposeBinding ?data (parentBinding [''folders'', ''*'']) = None"
    by (simp add: parentBinding_def parentRequest_def decomposeBinding_def gjson_Get_def
        matchPath_def isWildcard_def)
  have h: "PathInfo ?m = Some \<lparr>Bindings = [parentBinding [''folders'', ''*'']]\<rparr>
        \<and> list_all (\<lambda>b. decomposeBinding ?data b = None)
             (Bindings \<lparr>Bindings = [parentBinding [''folders'', ''*'']]\<rparr>)
        \<and> readMappingFile (okEnv skipEmptyMapping) = Some []
        \<and> unmarshalMapping (okEnv skipEmptyMapping) [] = Some skipEmptyMapping
        \<and> mustacheRender (okEnv skipEmptyMapping)
             (buildGcloudData (library (okEnv skipEmptyMapping)) None skipEmptyMapping ?data)
            = Some ''gcloud test''
        \<and> mkdirAll (okEnv skipEmptyMapping) \<and> writeFile (okEnv skipEmptyMapping) ''gcloud test''"
    using f by (simp add: methodOf_def okEnv_def buildGcloudData_Command skipEmptyMapping_def)
  from failing_candidates_are_no_error[where m = ?m and data = ?data
      and pinfo = "\<lparr>Bindings = [parentBinding [''folders'', ''*'']]\<rparr>"
      and env = "okEnv skipEmptyMapping" and bytes = "[]" and mapping = skipEmptyMapping
      and s = "''gcloud test''"] h
  have "decomposePathParams (Some ?m) ?data = ([], {})
      \<and> GenerateGcloud (okEnv skipEmptyMapping) (Some ?m) ?data = Inr ''gcloud test''"
    by blast
  with f show ?thesis by simp
qed


subsection \<open>The children of the value tree\<close>

lemma buildRequestInit_unfold:
  "buildRequestInit rt h (Some msg) data protoPkg =
     (if length data = 0 then
        Some (FieldNode [] (getGoTypeName msg (protoPkgNameOf protoPkg)) None
                True False False False [] [] [], [])
      else
        (case fold (fieldStep rt h protoPkg msg data) (Fields msg) (Some ([], [])) of
           None \<Rightarrow> None
         | Some (children, allImports) \<Rightarrow>
             Some (FieldNode [] (getGoTypeName msg (protoPkgNameOf protoPkg)) None
                     True False False False children [] [],
                   allImports)))"
  apply (subst buildRequestInit.simps)
  unfolding fieldStep_def[abs_def] fieldNodeOf_def[abs_def] itemStep_def[abs_def]
    entryStep_def[abs_def]
  apply simp
  done

lemma buildRequestInit_None: "buildRequestInit rt h None data protoPkg = None"
  by (subst buildRequestInit.simps) simp

lemma itemStep_None: "itemStep rt h pkg f x None = None"
  by (simp add: itemStep_def)

lemma fold_itemStep_None: "fold (itemStep rt h pkg f) xs None = None"
  by (induction xs) (simp_all add: itemStep_None)

lemma itemStep_acc:
  "itemStep rt h pkg f x (Some (items @ it, imps @ im)) =
     (case itemStep rt h pkg f x (Some (it, im)) of
        None \<Rightarrow> None
      | Some (it', im') \<Rightarrow> Some (items @ it', imps @ im'))"
  by (simp add: itemStep_def split: option.splits any.splits prod.splits)

lemma fold_itemStep_acc:
  "fold (itemStep rt h pkg f) xs (Some (items, imps)) =
     (case fold (itemStep rt h pkg f) xs (Some ([], [])) of
        None \<Rightarrow> None
      | Some (it, im) \<Rightarrow> Some (items @ it, imps @ im))"
proof (induction xs rule: rev_induct)
  case Nil
  show ?case by simp
next
  case (snoc x xs)
  show ?case
  proof (cases "fold (itemStep rt h pkg f) xs (Some ([], []))")
    case None
    with snoc show ?thesis by (simp add: itemStep_None)
  next
    case (Some st)
    obtain it im where st: "st = (it, im)" by (cases st)
    from snoc Some st have "fold (itemStep rt h pkg f) xs (Some (items, imps)) = Some (items @ it, imps @ im)"
      by simp
    then show ?thesis
      using Some st by (simp add: itemStep_acc)
  qed
qed

lemma entryStep_None: "entryStep rt h pkg vf x None = None"
  by (simp add: entryStep_def)

lemma entryStep_acc:
  "entryStep rt h pkg vf x (Some (entries @ es, imps @ im)) =
     (case entryStep rt h pkg vf x (Some (es, im)) of
        None \<Rightarrow> None
      | Some (es', im') \<Rightarrow> Some (entries @ es', imps @ im'))"
  by (simp add: entryStep_def split: option.splits any.splits prod.splits)

lemma fold_entryStep_acc:
  "fold (entryStep rt h pkg vf) xs (Some (entries, imps)) =
     (case fold (entryStep rt h pkg vf) xs (Some ([], [])) of
        None \<Rightarrow> None
      | Some (es, im) \<Rightarrow> Some (entries @ es, imps @ im))"
proof (induction xs rule: rev_induct)
  case Nil
  show ?case by simp
next
  case (snoc x xs)
  show ?case
  proof (cases "fold (entryStep rt h pkg vf) xs (Some ([], []))")
    case None
    with snoc show ?thesis by (simp add: entryStep_None)
  next
    case (Some st)
    obtain es im where st: "st = (es, im)" by (cases st)
    from snoc Some st have "fold (entryStep rt h pkg vf) xs (Some (entries, imps)) = Some (entries @ es, imps @ im)"
      by simp
    then show ?thesis
      using Some st by (simp add: entryStep_acc)
  qed
qed

lemma fieldNodeOf_acc:
  "fieldNodeOf rt h pkg f val imps =
     (case fieldNodeOf rt h pkg f val [] of
        None \<Rightarrow> None
      | Some None \<Rightarrow> Some None
      | Some (Some (n, i)) \<Rightarrow> Some (Some (n, imps @ i)))"
proof -
  have a: "\<And>xs. fold (itemStep rt h pkg f) xs (Some ([], imps)) =
     (case fold (itemStep rt h pkg f) xs (Some ([], [])) of
        None \<Rightarrow> None
      | Some (it, im) \<Rightarrow> Some (it, imps @ im))"
    by (simp add: fold_itemStep_acc[of rt h pkg f _ "[]" imps] split: option.splits)
  have b: "\<And>vf xs. fold (entryStep rt h pkg vf) xs (Some ([], imps)) =
     (case fold (entryStep rt h pkg vf) xs (Some ([], [])) of
        None \<Rightarrow> None
      | Some (es, im) \<Rightarrow> Some (es, imps @ im))"
    by (simp add: fold_entryStep_acc[of rt h pkg _ _ "[]" imps] split: option.splits)
  show ?thesis
    unfolding fieldNodeOf_def
    by (simp add: a b split: option.splits any.splits prod.splits)
qed

lemma fieldStep_None: "fieldStep rt h pkg msg data f None = None"
  by (simp add: fieldStep_def)

lemma fold_fieldStep_None: "fold (fieldStep rt h pkg msg data) fs None = None"
  by (induction fs) (simp_all add: fieldStep_None)

lemma fieldStep_children:
  "fieldStep rt h pkg msg data f (Some (ch, imps)) = Some (ch', imps')
     \<Longrightarrow> ch' = ch @ childrenOf rt h pkg msg data f"
  unfolding fieldStep_def childrenOf_def
  by (subst (asm) fieldNodeOf_acc) (auto split: option.splits prod.splits)

lemma fold_fieldStep_children:
  "fold (fieldStep rt h pkg msg data) fs (Some (ch, imps)) = Some (ch', imps')
     \<Longrightarrow> ch' = ch @ concat (map (childrenOf rt h pkg msg data) fs)"
proof (induction fs arbitrary: ch imps)
  case Nil
  then show ?case by simp
next
  case (Cons f fs)
  show ?case
  proof (cases "fieldStep rt h pkg msg data f (Some (ch, imps))")
    case None
    with Cons.prems show ?thesis by (simp add: fold_fieldStep_None)
  next
    case (Some st)
    obtain ch1 imps1 where st: "st = (ch1, imps1)" by (cases st)
    from Some st have "ch1 = ch @ childrenOf rt h pkg msg data f"
      by (auto dest: fieldStep_children)
    moreover from Cons.prems Some st have "ch' = ch1 @ concat (map (childrenOf rt h pkg msg data) fs)"
      by (auto dest: Cons.IH)
    ultimately show ?thesis by simp
  qed
qed

lemma lookupField_Nil: "lookupField [] f = None"
  by (simp add: lookupField_def)

lemma childrenOf_Nil: "concat (map (childrenOf rt h pkg msg []) fs) = []"
  by (induction fs) (simp_all add: childrenOf_def lookupField_Nil)

lemma buildRequestInit_children:
  assumes "buildRequestInit rt h (Some msg) data pkg = Some (rootNode, imps)"
  shows "rootNode = FieldNode [] (getGoTypeName msg (protoPkgNameOf pkg)) None True False False False
                  (concat (map (childrenOf rt h pkg msg data) (Fields msg))) [] []"
proof (cases "data = []")
  case True
  then have "concat (map (childrenOf rt h pkg msg data) (Fields msg)) = []"
    by (simp only: childrenOf_Nil)
  with assms True show ?thesis by (auto simp: buildRequestInit_unfold)
next
  case False
  with assms obtain ch where f: "fold (fieldStep rt h pkg msg data) (Fields msg) (Some ([], [])) = Some (ch, imps)"
    and r: "rootNode = FieldNode [] (getGoTypeName msg (protoPkgNameOf pkg)) None True False False False ch [] []"
    by (auto simp: buildRequestInit_unfold split: option.splits)
  from fold_fieldStep_children[OF f] r show ?thesis by simp
qed

lemma fold_option_Some:
  assumes "\<And>x st. x \<in> set xs \<Longrightarrow> \<exists>st'. step x (Some st) = Some st'"
  shows "\<exists>st'. fold step xs (Some st) = Some st'"
  using assms
proof (induction xs arbitrary: st)
  case Nil
  show ?case by simp
next
  case (Cons x xs)
  from Cons.prems[of x st] obtain st1 where s: "step x (Some st) = Some st1" by auto
  from Cons.IH[of st1] Cons.prems obtain st2 where "fold step xs (Some st1) = Some st2"
    by auto
  with s show ?case by simp
qed

lemma messageAt_mem: "messageAt h p = Some mt \<Longrightarrow> mt \<in> set h"
  by (auto simp: messageAt_def split: option.splits if_splits)

lemma fieldNodeOf_Some_aux:
  assumes rec: "\<And>p sub mt. messageAt h p = Some mt \<Longrightarrow> size (AnyMap sub) < size (AnyMap data)
      \<Longrightarrow> \<exists>r. buildRequestInit rt h (Some mt) sub pkg = Some r"
    and rr: "repeatedResolved h msg" and f: "f \<in> set (Fields msg)"
    and l: "lookupField data f = Some val"
  shows "\<exists>r. fieldNodeOf rt h pkg f val imps = Some r"
proof -
    from l have sv: "size val < size (AnyMap data)" by (rule lookupField_size)
    show ?thesis
    proof (cases "Repeated f")
      case True
      show ?thesis
      proof (cases val)
        case (AnySlice xs)
        have "\<exists>st'. fold (itemStep rt h pkg f) xs (Some ([], imps)) = Some st'"
        proof (rule fold_option_Some)
          fix x and st :: "FieldNode list \<times> string list"
          assume x: "x \<in> set xs"
          obtain items im where st: "st = (items, im)" by (cases st)
          show "\<exists>st'. itemStep rt h pkg f x (Some st) = Some st'"
          proof (cases "Typez f = MESSAGE_TYPE")
            case False
            then show ?thesis by (simp add: itemStep_def st)
          next
            case mt: True
            with True f rr obtain m where m: "messageAt h (MessageType f) = Some m"
              by (auto simp: repeatedResolved_def list_all_iff)
            show ?thesis
            proof (cases x)
              case (AnyMap sub)
              from x have "size x < size (AnySlice xs)" by (rule size_any_slice)
              with sv AnySlice AnyMap have "size (AnyMap sub) < size (AnyMap data)" by simp
              from rec[OF m this] obtain r where "buildRequestInit rt h (Some m) sub pkg = Some r"
                by blast
              then show ?thesis using mt m AnyMap st
                by (cases r) (simp add: itemStep_def)
            qed (simp_all add: itemStep_def st mt)
          qed
        qed
        then show ?thesis using True AnySlice
          by (auto simp: fieldNodeOf_def split: prod.splits)
      qed (simp_all add: fieldNodeOf_def True)
    next
      case nr: False
      show ?thesis
      proof (cases "IsMap f")
        case True
        show ?thesis
        proof (cases val)
          case (AnyMap mapVal)
          show ?thesis
          proof (cases "messageAt h (MessageType f)")
            case None
            then show ?thesis using nr True AnyMap by (simp add: fieldNodeOf_def)
          next
            case (Some entryMsg)
            show ?thesis
            proof (cases "valueFieldOf entryMsg")
              case None
              then show ?thesis using nr True AnyMap Some by (simp add: fieldNodeOf_def)
            next
              case vf: (Some valueField)
              have "\<exists>st'. fold (entryStep rt h pkg valueField) (rangeMap rt mapVal) (Some ([], imps)) = Some st'"
              proof (rule fold_option_Some)
                fix kv and st :: "(string \<times> FieldNode) list \<times> string list"
                assume kv: "kv \<in> set (rangeMap rt mapVal)"
                obtain es im where st: "st = (es, im)" by (cases st)
                show "\<exists>st'. entryStep rt h pkg valueField kv (Some st) = Some st'"
                proof (cases "snd (mapValType h valueField (protoPkgNameOf pkg))")
                  case False
                  then show ?thesis by (simp add: entryStep_def st)
                next
                  case mv: True
                  then obtain m where m: "messageAt h (MessageType valueField) = Some m"
                    by (auto simp: mapValType_def split: if_splits option.splits)
                  show ?thesis
                  proof (cases "snd kv")
                    case sub: (AnyMap sub)
                    from kv have "(fst kv, snd kv) \<in> set mapVal" by (simp add: rangeMap_set)
                    then have "size (snd kv) < size (AnyMap mapVal)" by (rule size_any_map)
                    with sv AnyMap sub have "size (AnyMap sub) < size (AnyMap data)" by simp
                    from rec[OF m this] obtain r where "buildRequestInit rt h (Some m) sub pkg = Some r"
                      by blast
                    then show ?thesis using mv m sub st
                      by (cases r) (simp add: entryStep_def)
                  qed (simp_all add: entryStep_def st mv)
                qed
              qed
              then show ?thesis using nr True AnyMap Some vf
                by (auto simp: fieldNodeOf_def split: prod.splits)
            qed
          qed
        qed (simp_all add: fieldNodeOf_def True nr)
      next
        case nm: False
        show ?thesis
        proof (cases "Typez f = MESSAGE_TYPE")
          case False
          then show ?thesis using nr nm by (simp add: fieldNodeOf_def)
        next
          case True
          show ?thesis
          proof (cases "messageAt h (MessageType f)")
            case None
            then show ?thesis using nr nm True by (simp add: fieldNodeOf_def)
          next
            case (Some m)
            show ?thesis
            proof (cases val)
              case (AnyMap sub)
              with sv have "size (AnyMap sub) < size (AnyMap data)" by simp
              from rec[OF Some this] obtain r where "buildRequestInit rt h (Some m) sub pkg = Some r"
                by blast
              then show ?thesis using nr nm True Some AnyMap
                by (cases r) (simp add: fieldNodeOf_def)
            qed (simp_all add: fieldNodeOf_def True nr nm Some)
          qed
        qed
      qed
    qed
qed

lemma buildRequestInit_total:
  assumes wf: "list_all (repeatedResolved h) h"
  shows "repeatedResolved h msg \<Longrightarrow> \<exists>r. buildRequestInit rt h (Some msg) data pkg = Some r"
proof (induction "size (AnyMap data)" arbitrary: msg data rule: less_induct)
  case less
  have rec: "\<And>p sub mt. messageAt h p = Some mt \<Longrightarrow> size (AnyMap sub) < size (AnyMap data)
      \<Longrightarrow> \<exists>r. buildRequestInit rt h (Some mt) sub pkg = Some r"
  proof -
    fix p sub mt
    assume m: "messageAt h p = Some mt" and s: "size (AnyMap sub) < size (AnyMap data)"
    from m have "mt \<in> set h" by (rule messageAt_mem)
    with wf have "repeatedResolved h mt" by (simp add: list_all_iff)
    with less.hyps[OF s] show "\<exists>r. buildRequestInit rt h (Some mt) sub pkg = Some r" by blast
  qed
  have node: "\<exists>r. fieldNodeOf rt h pkg f val imps = Some r"
    if f: "f \<in> set (Fields msg)" and l: "lookupField data f = Some val" for f val imps
  proof (rule fieldNodeOf_Some_aux[OF _ less.prems f l])
    fix p sub mt
    assume "messageAt h p = Some mt" "size (AnyMap sub) < size (AnyMap data)"
    then show "\<exists>r. buildRequestInit rt h (Some mt) sub pkg = Some r" by (rule rec)
  qed
  have "\<exists>st'. fold (fieldStep rt h pkg msg data) (Fields msg) (Some ([], [])) = Some st'"
  proof (rule fold_option_Some)
    fix f and st :: "FieldNode list \<times> string list"
    assume f: "f \<in> set (Fields msg)"
    obtain ch im where st: "st = (ch, im)" by (cases st)
    show "\<exists>st'. fieldStep rt h pkg msg data f (Some st) = Some st'"
    proof (cases "lookupField data f")
      case None
      then show ?thesis by (simp add: fieldStep_def st)
    next
      case (Some val)
      from node[OF f Some, of im] obtain r where "fieldNodeOf rt h pkg f val im = Some r" by blast
      then show ?thesis using Some st
        by (cases r) (auto simp: fieldStep_def)
    qed
  qed
  then show ?case
    by (auto simp: buildRequestInit_unfold split: prod.splits)
qed

lemma fieldNodeOf_total:
  assumes "list_all (repeatedResolved h) h" "repeatedResolved h msg" "f \<in> set (Fields msg)"
    "lookupField data f = Some val"
  shows "\<exists>r. fieldNodeOf rt h pkg f val imps = Some r"
proof (rule fieldNodeOf_Some_aux[OF _ assms(2,3,4)])
  fix p sub mt
  assume m: "messageAt h p = Some mt"
  then have "mt \<in> set h" by (rule messageAt_mem)
  with assms(1) have "repeatedResolved h mt" by (simp add: list_all_iff)
  from buildRequestInit_total[OF assms(1) this]
  show "\<exists>r. buildRequestInit rt h (Some mt) sub pkg = Some r" by blast
qed

lemma NodeName_adoptChild: "NodeName (adoptChild name n) = name"
  by (simp add: adoptChild_def)

lemma fieldNodeOf_shape:
  "fieldNodeOf rt h pkg f val imps = Some r \<Longrightarrow>
     (case r of
        None \<Rightarrow> \<not> shapeFits h f val
      | Some (n, i) \<Rightarrow> shapeFits h f val \<and> NodeName n = toPascalCase (Field.Name f))"
  unfolding fieldNodeOf_def shapeFits_def
  by (auto split: if_splits any.splits option.splits prod.splits simp: NodeName_adoptChild)

lemma NodeName_wrapOneOf:
  "NodeName n = toPascalCase (Field.Name f) \<Longrightarrow> NodeName (wrapOneOf msg f pkgName n) = childName f"
  by (simp add: wrapOneOf_def childName_def split: option.splits)

lemma childrenOf_names:
  assumes "list_all (repeatedResolved h) h" "repeatedResolved h msg" "f \<in> set (Fields msg)"
  shows "map NodeName (childrenOf rt h pkg msg data f)
       = (if fieldEmitted h data f then [childName f] else [])"
proof (cases "lookupField data f")
  case None
  then show ?thesis by (simp add: childrenOf_def fieldEmitted_def)
next
  case (Some val)
  from fieldNodeOf_total[OF assms Some, of rt pkg "[]"]
  obtain r where r: "fieldNodeOf rt h pkg f val [] = Some r" by blast
  from fieldNodeOf_shape[OF r] show ?thesis
    using Some r
    by (cases r) (auto simp: childrenOf_def fieldEmitted_def NodeName_wrapOneOf)
qed

lemma children_names:
  assumes "list_all (repeatedResolved h) h" "repeatedResolved h msg"
  shows "set fs \<subseteq> set (Fields msg) \<Longrightarrow>
     map NodeName (concat (map (childrenOf rt h pkg msg data) fs))
       = map childName (filter (fieldEmitted h data) fs)"
proof (induction fs)
  case Nil
  show ?case by simp
next
  case (Cons f fs)
  then have "f \<in> set (Fields msg)" by simp
  from childrenOf_names[OF assms this, of rt pkg data] Cons show ?case by simp
qed

text \<open>
  Claim C3 (amended).  Let every repeated field of message type, of the message and of
  every message of the table, have its message in the table.  Then the builder returns
  a message-kind node.  Its children are, in the order of the schema, one node for each
  field of the schema that is found in the JSON object, by its declared name first and
  then by its JSON name, and whose value has the shape the field asks for (a slice for
  a repeated field; a map for a map field, whose entry message must be in the table and
  have a field named \<open>value\<close>; a map for a singular message field, whose message must be
  in the table; any value for a singular scalar field).  The child has the Pascal-case
  name of the field, or of its oneof group.  Every field that adds a child is present in
  the object; a field that is absent under both names, or present with a value of
  another shape, adds none; and the empty JSON object yields a node without children.
\<close>

theorem buildRequestInit_children_present:
  assumes "list_all (repeatedResolved h) h" and "repeatedResolved h msg"
  shows "\<exists>rootNode imps.
           buildRequestInit rt h (Some msg) data protoPkg = Some (rootNode, imps)
           \<and> IsMessage rootNode
           \<and> map NodeName (Children rootNode)
               = map childName (filter (fieldEmitted h data) (Fields msg))
           \<and> list_all (fieldPresent data) (filter (fieldEmitted h data) (Fields msg))
           \<and> (data = [] \<longrightarrow> Children rootNode = [])"
proof -
  from buildRequestInit_total[OF assms, of rt data protoPkg]
  obtain rootNode imps where b: "buildRequestInit rt h (Some msg) data protoPkg = Some (rootNode, imps)"
    by auto
  from buildRequestInit_children[OF b]
  have r: "rootNode = FieldNode [] (getGoTypeName msg (protoPkgNameOf protoPkg)) None True False
      False False (concat (map (childrenOf rt h protoPkg msg data) (Fields msg))) [] []" .
  have 1: "IsMessage rootNode" by (simp add: r)
  have 2: "map NodeName (Children rootNode)
      = map childName (filter (fieldEmitted h data) (Fields msg))"
    using children_names[OF assms, of "Fields msg" rt protoPkg data] by (simp add: r)
  have 3: "data = [] \<Longrightarrow> Children rootNode = []"
    by (simp add: r childrenOf_Nil)
  have 4: "list_all (fieldPresent data) (filter (fieldEmitted h data) (Fields msg))"
    by (auto simp: list_all_iff fieldPresent_def fieldEmitted_def split: option.splits)
  from b 1 2 3 4 show ?thesis by auto
qed

theorem buildRequestInit_children_present_witness:
  "(\<exists>rootNode imps.
      buildRequestInit stdRuntime [] (Some basicMsg) basicRequest ''librarypb''
        = Some (rootNode, imps)
      \<and> IsMessage rootNode
      \<and> map NodeName (Children rootNode) = [''Foo'', ''Baz''])
   \<and> (\<exists>rootNode imps.
      buildRequestInit stdRuntime [] (Some basicMsg) [] ''librarypb'' = Some (rootNode, imps)
      \<and> IsMessage rootNode
      \<and> Children rootNode = [])"
proof -
  have h1: "list_all (repeatedResolved []) []" by simp
  have h2: "repeatedResolved [] basicMsg"
    by (simp add: repeatedResolved_def basicMsg_def messageOf_def scalarField_def)
  have n: "map childName (filter (fieldEmitted [] basicRequest) (Fields basicMsg)) = [''Foo'', ''Baz'']"
    by code_simp
  from buildRequestInit_children_present[OF h1 h2, of stdRuntime basicRequest "''librarypb''"]
  obtain rootNode imps where
    "buildRequestInit stdRuntime [] (Some basicMsg) basicRequest ''librarypb'' = Some (rootNode, imps)"
    "IsMessage rootNode"
    "map NodeName (Children rootNode)
       = map childName (filter (fieldEmitted [] basicRequest) (Fields basicMsg))"
    by blast
  then have a: "\<exists>rootNode imps.
      buildRequestInit stdRuntime [] (Some basicMsg) basicRequest ''librarypb''
        = Some (rootNode, imps)
      \<and> IsMessage rootNode
      \<and> map NodeName (Children rootNode) = [''Foo'', ''Baz'']"
    using n by simp
  from buildRequestInit_children_present[OF h1 h2, of stdRuntime "[]" "''librarypb''"]
  obtain rootNode' imps' where
    "buildRequestInit stdRuntime [] (Some basicMsg) [] ''librarypb'' = Some (rootNode', imps')"
    "IsMessage rootNode'"
    "([] :: (string \<times> any) list) = [] \<longrightarrow> Children rootNode' = []"
    by blast
  then have b: "\<exists>rootNode imps.
      buildRequestInit stdRuntime [] (Some basicMsg) [] ''librarypb'' = Some (rootNode, imps)
      \<and> IsMessage rootNode
      \<and> Children rootNode = []"
    by simp
  from a b show ?thesis by (rule conjI)
qed

theorem present_field_omitted_counterexample:
  "fieldPresent [(''items'', AnyString ''a'')] ((scalarField ''items'' STRING_TYPE)\<lparr>Repeated := True\<rparr>)
   \<and> (scalarField ''items'' STRING_TYPE)\<lparr>Repeated := True\<rparr> \<in> set (Fields basicMsg)
   \<and> buildRequestInit stdRuntime [] (Some basicMsg) [(''items'', AnyString ''a'')] ''librarypb''
     = Some (FieldNode [] ''librarypb.TestMsg'' None True False False False [] [] [], [])"
  by code_simp


subsection \<open>Scalar fields\<close>

lemma quoteChar_plain: "plainChar c \<Longrightarrow> quoteChar c = [c]"
  by (auto simp: plainChar_def quoteChar_def Let_def)

lemma strconv_Quote_plain: "list_all plainChar s \<Longrightarrow> strconv_Quote s = CHR 0x22 # s @ [CHR 0x22]"
proof -
  assume "list_all plainChar s"
  then have "concat (map quoteChar s) = s"
    by (induction s) (simp_all add: quoteChar_plain)
  then show ?thesis by (simp add: strconv_Quote_def)
qed

lemma truncateReal_bounds:
  "\<bar>real_of_int (truncateReal v)\<bar> \<le> \<bar>v\<bar> \<and> \<bar>v - real_of_int (truncateReal v)\<bar> < 1"
  unfolding truncateReal_def by (auto; linarith)

lemma in_concat_map: "x \<in> set (g f) \<Longrightarrow> f \<in> set fs \<Longrightarrow> x \<in> set (concat (map g fs))"
  by auto

lemma scalar_child:
  assumes "buildRequestInit rt h (Some msg) data protoPkg = Some (rootNode, imps)"
    and "f \<in> set (Fields msg)" and "\<not> Repeated f" and "\<not> IsMap f"
    and "Typez f \<noteq> MESSAGE_TYPE" and "lookupField data f = Some val"
  shows "wrapOneOf msg f (protoPkgNameOf protoPkg)
           (primitiveNode (toPascalCase (Field.Name f))
              (formatPrimitive rt val (scalarTypeStr (Typez f))))
         \<in> set (Children rootNode)"
proof -
  let ?w = "wrapOneOf msg f (protoPkgNameOf protoPkg)
           (primitiveNode (toPascalCase (Field.Name f))
              (formatPrimitive rt val (scalarTypeStr (Typez f))))"
  have "childrenOf rt h protoPkg msg data f = [?w]"
    using assms(3-6)
    by (simp add: childrenOf_def fieldNodeOf_def adoptChild_def primitiveNode_def)
  then have "?w \<in> set (childrenOf rt h protoPkg msg data f)" by simp
  then have "?w \<in> set (concat (map (childrenOf rt h protoPkg msg data) (Fields msg)))"
    using assms(2) by (rule in_concat_map)
  moreover from buildRequestInit_children[OF assms(1)]
  have "Children rootNode = concat (map (childrenOf rt h protoPkg msg data) (Fields msg))"
    by simp
  ultimately show ?thesis by simp
qed

lemma sprintfD_3e9: "sprintfD 3000000000 = ''3000000000''"
  by (simp add: sprintfD_def natDigits.simps digitChar_def)

lemma sprintfD_m7: "sprintfD (- 7) = ''-7''"
  by (simp add: sprintfD_def natDigits.simps digitChar_def)

lemma sprintfD_42: "sprintfD 42 = ''42''"
  by (simp add: sprintfD_def natDigits.simps digitChar_def)

lemma trunc_m75: "truncateReal (- 7.5) = - 7" "truncateReal (- (15 / 2)) = - 7"
  by (simp_all add: truncateReal_def)

lemma trunc_429: "truncateReal 42.9 = 42" "truncateReal (429 / 10) = 42"
  by (simp_all add: truncateReal_def)

lemma toPascalCase_id: "toPascalCase ''id'' = ''Id''"
  by code_simp

lemma pkg_librarypb: "protoPkgNameOf ''librarypb'' = ''librarypb''"
  by code_simp

lemma int32_field_built: "buildRequestInit stdRuntime [] (Some (messageOf ''M'' [scalarField ''id'' INT32_TYPE]))
     [(''id'', AnyFloat64 3000000000)] ''librarypb''
   = Some (FieldNode [] ''librarypb.M'' None True False False False
       [FieldNode ''Id'' [] (Some ''3000000000'') False False False True [] [] []] [] [], [])"
  by (simp add: buildRequestInit_unfold messageOf_def scalarField_def fieldStep_def
      lookupField_def fieldNodeOf_def wrapOneOf_def adoptChild_def primitiveNode_def
      scalarTypeStr_def formatPrimitive_def int64OfFloat64_def truncateReal_def sprintfD_3e9
      toPascalCase_id pkg_librarypb getGoTypeName_def)

lemma scalars_built:
  "buildRequestInit stdRuntime [] (Some scalarsMsg) scalarsRequest ''librarypb''
     = Some (FieldNode [] ''librarypb.M'' None True False False False
         [primitiveNode ''Id'' ''-7'', primitiveNode ''N'' ''42'',
          primitiveNode ''Foo'' (CHR 0x22 # ''bar'' @ [CHR 0x22])] [] [], [])"
proof -
  have p: "toPascalCase ''id'' = ''Id''" "toPascalCase ''n'' = ''N''" "toPascalCase ''foo'' = ''Foo''"
    "protoPkgNameOf ''librarypb'' = ''librarypb''"
    "strconv_Quote ''bar'' = CHR 0x22 # ''bar'' @ [CHR 0x22]"
    by code_simp+
  show ?thesis
    by (simp add: buildRequestInit_unfold scalarsMsg_def scalarsRequest_def messageOf_def
        scalarField_def fieldStep_def lookupField_def fieldNodeOf_def wrapOneOf_def
        adoptChild_def primitiveNode_def scalarTypeStr_def formatPrimitive_def formatQ_def
        quoteString_def isASCII_def
        int64OfFloat64_def uint64OfFloat64_def trunc_m75 trunc_429 sprintfD_m7 sprintfD_42
        p getGoTypeName_def)
qed

text \<open>
  Claim C7 (amended).  A singular scalar field that is found in the request adds a
  primitive node whose value is the formatted JSON value.  A JSON number at a signed
  integer field, of 32 or 64 bits alike, is converted to a 64-bit signed integer and
  printed in decimal: when the number without its fraction is in the 64-bit signed
  range, the text is that of the number without its fraction; an unsigned integer field,
  of 32 or 64 bits alike, does the same with the 64-bit unsigned range.  Nothing is
  narrowed to 32 bits.  The conversion drops the fraction toward zero.  An ASCII string
  at a string field is printed as Go quotes it; printable ASCII text without a quote or
  a backslash is copied verbatim between two quotes.
\<close>

theorem scalar_field_coercion:
  assumes "buildRequestInit rt h (Some msg) data protoPkg = Some (rootNode, imps)"
    and "f \<in> set (Fields msg)" and "\<not> Repeated f" and "\<not> IsMap f"
    and "Typez f \<noteq> MESSAGE_TYPE" and "lookupField data f = Some val"
  shows "wrapOneOf msg f (protoPkgNameOf protoPkg)
           (primitiveNode (toPascalCase (Field.Name f))
              (formatPrimitive rt val (scalarTypeStr (Typez f))))
         \<in> set (Children rootNode)
     \<and> (signedIntType (Typez f) \<and> val = AnyFloat64 v
          \<and> - (2 ^ 63) \<le> truncateReal v \<and> truncateReal v < 2 ^ 63
        \<longrightarrow> formatPrimitive rt val (scalarTypeStr (Typez f)) = sprintfD (truncateReal v))
     \<and> (unsignedIntType (Typez f) \<and> val = AnyFloat64 v
          \<and> 0 \<le> truncateReal v \<and> truncateReal v < 2 ^ 64
        \<longrightarrow> formatPrimitive rt val (scalarTypeStr (Typez f)) = sprintfD (truncateReal v))
     \<and> (Typez f = STRING_TYPE \<and> val = AnyString s \<and> isASCII s
        \<longrightarrow> formatPrimitive rt val (scalarTypeStr (Typez f)) = strconv_Quote s
            \<and> (list_all plainChar s \<longrightarrow> strconv_Quote s = CHR 0x22 # s @ [CHR 0x22]))
     \<and> \<bar>real_of_int (truncateReal v)\<bar> \<le> \<bar>v\<bar> \<and> \<bar>v - real_of_int (truncateReal v)\<bar> < 1"
proof (intro conjI impI)
  show "wrapOneOf msg f (protoPkgNameOf protoPkg)
           (primitiveNode (toPascalCase (Field.Name f))
              (formatPrimitive rt val (scalarTypeStr (Typez f))))
         \<in> set (Children rootNode)"
    by (rule scalar_child[OF assms])
next
  assume "signedIntType (Typez f) \<and> val = AnyFloat64 v
          \<and> - (2 ^ 63) \<le> truncateReal v \<and> truncateReal v < 2 ^ 63"
  then show "formatPrimitive rt val (scalarTypeStr (Typez f)) = sprintfD (truncateReal v)"
    by (auto simp: signedIntType_def scalarTypeStr_def formatPrimitive_def int64OfFloat64_def)
next
  assume "unsignedIntType (Typez f) \<and> val = AnyFloat64 v
          \<and> 0 \<le> truncateReal v \<and> truncateReal v < 2 ^ 64"
  then show "formatPrimitive rt val (scalarTypeStr (Typez f)) = sprintfD (truncateReal v)"
    by (auto simp: unsignedIntType_def scalarTypeStr_def formatPrimitive_def uint64OfFloat64_def)
next
  assume "Typez f = STRING_TYPE \<and> val = AnyString s \<and> isASCII s"
  then show "formatPrimitive rt val (scalarTypeStr (Typez f)) = strconv_Quote s"
    by (simp add: scalarTypeStr_def formatPrimitive_def formatQ_def quoteString_def)
next
  assume "list_all plainChar s"
  then show "strconv_Quote s = CHR 0x22 # s @ [CHR 0x22]" by (rule strconv_Quote_plain)
next
  show "\<bar>real_of_int (truncateReal v)\<bar> \<le> \<bar>v\<bar>" using truncateReal_bounds[of v] by simp
next
  show "\<bar>v - real_of_int (truncateReal v)\<bar> < 1" using truncateReal_bounds[of v] by simp
qed

theorem scalar_field_coercion_witness:
  "primitiveNode ''Id'' ''-7''
     \<in> set [primitiveNode ''Id'' ''-7'', primitiveNode ''N'' ''42'',
              primitiveNode ''Foo'' (CHR 0x22 # ''bar'' @ [CHR 0x22])]
   \<and> formatPrimitive stdRuntime (AnyFloat64 (- 7.5)) (scalarTypeStr INT64_TYPE) = ''-7''
   \<and> formatPrimitive stdRuntime (AnyFloat64 42.9) (scalarTypeStr UINT32_TYPE) = ''42''
   \<and> formatPrimitive stdRuntime (AnyString ''bar'') (scalarTypeStr STRING_TYPE)
       = CHR 0x22 # ''bar'' @ [CHR 0x22]"
proof -
  let ?root = "FieldNode [] ''librarypb.M'' None True False False False
         [primitiveNode ''Id'' ''-7'', primitiveNode ''N'' ''42'',
          primitiveNode ''Foo'' (CHR 0x22 # ''bar'' @ [CHR 0x22])] [] []"
  let ?id = "scalarField ''id'' INT64_TYPE"
  let ?n = "scalarField ''n'' UINT32_TYPE"
  let ?foo = "scalarField ''foo'' STRING_TYPE"
  have s1: "signedIntType (Typez ?id) \<and> AnyFloat64 (- 7.5) = AnyFloat64 (- 7.5)
      \<and> - (2 ^ 63) \<le> truncateReal (- 7.5) \<and> truncateReal (- 7.5) < 2 ^ 63"
    by (simp add: signedIntType_def scalarField_def trunc_m75)
  have s2: "unsignedIntType (Typez ?n) \<and> AnyFloat64 42.9 = AnyFloat64 42.9
      \<and> 0 \<le> truncateReal 42.9 \<and> truncateReal 42.9 < 2 ^ 64"
    by (simp add: unsignedIntType_def scalarField_def trunc_429)
  have s3: "Typez ?foo = STRING_TYPE \<and> AnyString ''bar'' = AnyString ''bar'' \<and> isASCII ''bar''"
    by (simp add: scalarField_def isASCII_def)
  have s4: "list_all plainChar ''bar''"
    by (simp add: plainChar_def)
  have a1: "?id \<in> set (Fields scalarsMsg)" "\<not> Repeated ?id" "\<not> IsMap ?id"
    "Typez ?id \<noteq> MESSAGE_TYPE" "lookupField scalarsRequest ?id = Some (AnyFloat64 (- 7.5))"
    by (simp_all add: scalarsMsg_def messageOf_def scalarField_def lookupField_def scalarsRequest_def)
  have a2: "?n \<in> set (Fields scalarsMsg)" "\<not> Repeated ?n" "\<not> IsMap ?n"
    "Typez ?n \<noteq> MESSAGE_TYPE" "lookupField scalarsRequest ?n = Some (AnyFloat64 42.9)"
    by (simp_all add: scalarsMsg_def messageOf_def scalarField_def lookupField_def scalarsRequest_def)
  have a3: "?foo \<in> set (Fields scalarsMsg)" "\<not> Repeated ?foo" "\<not> IsMap ?foo"
    "Typez ?foo \<noteq> MESSAGE_TYPE" "lookupField scalarsRequest ?foo = Some (AnyString ''bar'')"
    by (simp_all add: scalarsMsg_def messageOf_def scalarField_def lookupField_def scalarsRequest_def)
  from scalar_field_coercion[OF scalars_built a1, of "- 7.5" "[]"] s1
  have r1: "wrapOneOf scalarsMsg ?id (protoPkgNameOf ''librarypb'')
           (primitiveNode (toPascalCase (Field.Name ?id))
              (formatPrimitive stdRuntime (AnyFloat64 (- 7.5)) (scalarTypeStr (Typez ?id))))
         \<in> set (Children ?root)"
    and f1: "formatPrimitive stdRuntime (AnyFloat64 (- 7.5)) (scalarTypeStr (Typez ?id))
         = sprintfD (truncateReal (- 7.5))"
    by blast+
  from scalar_field_coercion[OF scalars_built a2, of "42.9" "[]"] s2
  have f2: "formatPrimitive stdRuntime (AnyFloat64 42.9) (scalarTypeStr (Typez ?n))
         = sprintfD (truncateReal 42.9)"
    by blast
  from scalar_field_coercion[OF scalars_built a3, of 0 "''bar''"] s3 s4
  have f3: "formatPrimitive stdRuntime (AnyString ''bar'') (scalarTypeStr (Typez ?foo))
         = strconv_Quote ''bar''"
    and q3: "strconv_Quote ''bar'' = CHR 0x22 # ''bar'' @ [CHR 0x22]"
    by blast+
  have t: "toPascalCase ''id'' = ''Id''" by code_simp
  from r1 f1 f2 f3 q3 show ?thesis
    by (simp add: scalarField_def wrapOneOf_def trunc_m75 trunc_429 sprintfD_m7 sprintfD_42 t)
qed

theorem int32_not_narrowed_counterexample:
  "buildRequestInit stdRuntime [] (Some (messageOf ''M'' [scalarField ''id'' INT32_TYPE]))
     [(''id'', AnyFloat64 3000000000)] ''librarypb''
   = Some (FieldNode [] ''librarypb.M'' None True False False False
       [primitiveNode ''Id'' (sprintfD 3000000000)] [] [], [])
   \<and> sprintfD 3000000000 = ''3000000000''
   \<and> \<not> (3000000000 < (2::int) ^ 31)"
  using int32_field_built sprintfD_3e9 by (simp add: primitiveNode_def)


subsection \<open>The order of map entries\<close>

text \<open>
  Claim C9 (the code diverges).  The entries of a map field are built in the order in
  which the runtime's \<open>range\<close> visits the map, and \<open>Render\<close> writes them in that
  order.  For the map field \<open>labels\<close> and the request with the two labels \<open>k1\<close> and
  \<open>k2\<close>, a runtime that visits the entries as they are stored and a runtime that visits
  them in the reverse order, both of them rearrangements that Go allows, yield two
  different texts for the same schema and the same request.
\<close>

theorem map_entries_follow_runtime_order:
  "mset (mapOrder stdRuntime [(''k1'', AnyString ''v1''), (''k2'', AnyString ''v2'')])
     = mset [(''k1'', AnyString ''v1''), (''k2'', AnyString ''v2'')]
   \<and> mset (mapOrder revRuntime [(''k1'', AnyString ''v1''), (''k2'', AnyString ''v2'')])
     = mset [(''k1'', AnyString ''v1''), (''k2'', AnyString ''v2'')]
   \<and> map_option (Render stdRuntime \<circ> fst)
        (buildRequestInit stdRuntime labelsHeap (Some labelsMsg) labelsRequest ''librarypb'')
     = Some (''&librarypb.TestMsg{'' @ [CHR 0x0A]
         @ ''Labels: map[string]string{'' @ [CHR 0x0A]
         @ [CHR 0x22] @ ''k1'' @ [CHR 0x22] @ '': '' @ [CHR 0x22] @ ''v1'' @ [CHR 0x22] @ '','' @ [CHR 0x0A]
         @ [CHR 0x22] @ ''k2'' @ [CHR 0x22] @ '': '' @ [CHR 0x22] @ ''v2'' @ [CHR 0x22] @ '','' @ [CHR 0x0A]
         @ ''},'' @ [CHR 0x0A] @ ''}'')
   \<and> map_option (Render revRuntime \<circ> fst)
        (buildRequestInit revRuntime labelsHeap (Some labelsMsg) labelsRequest ''librarypb'')
     = Some (''&librarypb.TestMsg{'' @ [CHR 0x0A]
         @ ''Labels: map[string]string{'' @ [CHR 0x0A]
         @ [CHR 0x22] @ ''k2'' @ [CHR 0x22] @ '': '' @ [CHR 0x22] @ ''v2'' @ [CHR 0x22] @ '','' @ [CHR 0x0A]
         @ [CHR 0x22] @ ''k1'' @ [CHR 0x22] @ '': '' @ [CHR 0x22] @ ''v1'' @ [CHR 0x22] @ '','' @ [CHR 0x0A]
         @ ''},'' @ [CHR 0x0A] @ ''}'')"
  by code_simp

end
